theory Spec2Isabelle
  imports Main
begin

section \<open>Python values, JSON and SQL cells\<close>

text \<open>
  The attribute payloads of the store are Python dictionaries with string keys. A
  dictionary keeps its keys in insertion order, so it is an association list here;
  Python's \<open>==\<close> on dictionaries ignores the order and is \<open>map_of a = map_of b\<close>.
  \<open>PObject\<close> stands for any Python object that \<open>json.dumps\<close> cannot serialise (a set,
  bytes, an instance of a class). Floats and booleans are left out of the value type.
\<close>

datatype pyval =
    PNone
  | PInt int
  | PStr string
  | PList "pyval list"
  | PDict "(string \<times> pyval) list"
  | PObject nat

type_synonym dict = "(string \<times> pyval) list"

datatype exn =
    TypeError
  | IndexError
  | KeyError
  | ValueError
  | IntegrityError
  | InterfaceError
  | EmbeddingProviderError
  | TransactionError exn

text \<open>
  \<open>TransactionError\<close> is the wrapper that the specification names; no function of
  \<open>database.py\<close> or \<open>sqlitevss.py\<close> constructs it.
\<close>

text \<open>\<open>d[k] = v\<close>: an existing key keeps its position, a new key goes to the end.\<close>

fun dict_set :: "string \<Rightarrow> pyval \<Rightarrow> dict \<Rightarrow> dict" where
  "dict_set k v [] = [(k, v)]"
| "dict_set k v (p # ps) = (if fst p = k then (k, v) # ps else p # dict_set k v ps)"

text \<open>\<open>{**a, **b}\<close>: a new dictionary with the items of \<open>a\<close>, into which the items of \<open>b\<close>
  are stored in turn.\<close>

definition dict_merge :: "dict \<Rightarrow> dict \<Rightarrow> dict" where
  "dict_merge a b = fold (\<lambda>kv d. dict_set (fst kv) (snd kv) d) b a"

text \<open>Truth value of an object, as \<open>not x\<close> reads it.\<close>

fun py_truthy :: "pyval \<Rightarrow> bool" where
  "py_truthy PNone = False"
| "py_truthy (PInt i) = (i \<noteq> 0)"
| "py_truthy (PStr s) = (s \<noteq> [])"
| "py_truthy (PList xs) = (xs \<noteq> [])"
| "py_truthy (PDict d) = (d \<noteq> [])"
| "py_truthy (PObject n) = True"

subsection \<open>json.dumps and json.loads\<close>

text \<open>
  \<open>json.dumps\<close> raises \<open>TypeError\<close> on an object it cannot serialise, anywhere inside the
  value. On the values of \<open>pyval\<close> that it accepts, \<open>json.loads\<close> gives back the value that
  was written (string keys, no tuples, no floats), so a JSON text is kept as the value it
  denotes; \<open>json_text\<close> below gives its characters where the code compares them.
\<close>

fun json_ok :: "pyval \<Rightarrow> bool" where
  "json_ok PNone = True"
| "json_ok (PInt i) = True"
| "json_ok (PStr s) = True"
| "json_ok (PList xs) = (\<forall>x \<in> set xs. json_ok x)"
| "json_ok (PDict kvs) = (\<forall>kv \<in> set kvs. json_ok (snd kv))"
| "json_ok (PObject n) = False"

datatype json = Json pyval

definition json_dumps :: "pyval \<Rightarrow> exn + json" where
  "json_dumps v = (if json_ok v then Inr (Json v) else Inl TypeError)"

fun json_loads :: "json \<Rightarrow> pyval" where
  "json_loads (Json v) = v"

text \<open>The characters of a JSON text, with the separators and escapes of \<open>json.dumps\<close>.\<close>

function string_of_nat :: "nat \<Rightarrow> string" where
  "string_of_nat n =
     (if n < 10 then [''0123456789'' ! n]
      else string_of_nat (n div 10) @ [''0123456789'' ! (n mod 10)])"
  by pat_completeness auto
termination
  by (relation "measure id") auto

declare string_of_nat.simps [simp del]

definition string_of_int :: "int \<Rightarrow> string" where
  "string_of_int i = (if i < 0 then CHR ''-'' # string_of_nat (nat (- i)) else string_of_nat (nat i))"

definition escape_char :: "char \<Rightarrow> string" where
  "escape_char c =
     (if c = CHR 0x22 then [CHR 0x5C, CHR 0x22]
      else if c = CHR 0x5C then [CHR 0x5C, CHR 0x5C]
      else if c = CHR 0x0A then [CHR 0x5C, CHR ''n'']
      else if c = CHR 0x0D then [CHR 0x5C, CHR ''r'']
      else if c = CHR 0x09 then [CHR 0x5C, CHR ''t'']
      else if c = CHR 0x08 then [CHR 0x5C, CHR ''b'']
      else if c = CHR 0x0C then [CHR 0x5C, CHR ''f'']
      else if 32 \<le> (of_char c :: nat) \<and> (of_char c :: nat) \<le> 126 then [c]
      else [CHR 0x5C, CHR ''u'', CHR ''0'', CHR ''0'',
            ''0123456789abcdef'' ! ((of_char c :: nat) div 16),
            ''0123456789abcdef'' ! ((of_char c :: nat) mod 16)])"

definition json_quote :: "string \<Rightarrow> string" where
  "json_quote s = CHR 0x22 # concat (map escape_char s) @ [CHR 0x22]"

fun join_with :: "string \<Rightarrow> string list \<Rightarrow> string" where
  "join_with sep [] = []"
| "join_with sep [x] = x"
| "join_with sep (x # y # ys) = x @ sep @ join_with sep (y # ys)"

fun render :: "pyval \<Rightarrow> string" where
  "render PNone = ''null''"
| "render (PInt i) = string_of_int i"
| "render (PStr s) = json_quote s"
| "render (PList xs) = ''['' @ join_with '', '' (map render xs) @ '']''"
| "render (PDict kvs) =
     ''{'' @ join_with '', '' (map (\<lambda>kv. json_quote (fst kv) @ '': '' @ render (snd kv)) kvs) @ ''}''"
| "render (PObject n) = []"

fun json_text :: "json \<Rightarrow> string" where
  "json_text (Json v) = render v"

subsection \<open>SQL values\<close>

text \<open>
  A column value as the driver hands it to Python: NULL, an integer or a text. Binding a
  Python value to a \<open>?\<close> of a statement accepts \<open>None\<close>, \<open>int\<close> and \<open>str\<close> and raises on a
  list, a dictionary or another object. In a \<open>WHERE\<close> clause NULL equals nothing.
\<close>

datatype cell = CNull | CInt int | CText string

fun sql_bind :: "pyval \<Rightarrow> exn + cell" where
  "sql_bind PNone = Inr CNull"
| "sql_bind (PInt i) = Inr (CInt i)"
| "sql_bind (PStr s) = Inr (CText s)"
| "sql_bind v = Inl InterfaceError"

definition sql_eq :: "cell \<Rightarrow> cell \<Rightarrow> bool" where
  "sql_eq a b = (a \<noteq> CNull \<and> a = b)"

section \<open>The store: heap, tables and SQL statements\<close>

text \<open>
  The functions of \<open>database.py\<close> receive the caller's dictionaries by reference and
  write into them, so the dictionaries live in a heap: a reference is a position in the
  list, a new dictionary is appended, and every reference a caller holds is below the
  length of the heap.
\<close>

type_synonym ref = nat
type_synonym heap = "dict list"

definition alloc :: "dict \<Rightarrow> heap \<Rightarrow> ref \<times> heap" where
  "alloc d h = (length h, h @ [d])"

record database =
  nodes :: "(cell \<times> json) list"
  edges :: "(cell \<times> cell \<times> json) list"

definition empty_db :: database where
  "empty_db = \<lparr>nodes = [], edges = []\<rparr>"

text \<open>
  The SQL texts under \<open>sql/\<close> (\<open>insert-node.sql\<close>, \<open>update-node.sql\<close>,
  \<open>delete-node.sql\<close>, \<open>delete-edge.sql\<close>, \<open>search-edges.sql\<close>, the search templates and
  the schema) are not part of the sources. The specification gives the tables
  \<open>nodes(id PRIMARY KEY, body)\<close> and \<open>edges(source, target, properties)\<close>; each statement
  below is what the specification says of the operation that executes it.
\<close>

text \<open>Modelled from the spec: the \<open>id\<close> column of the schema, which is missing. An
  identifier is a string or an integer, and \<open>insert-node.sql\<close> receives the serialised
  body as its only parameter, so the \<open>id\<close> of a row is read from the \<open>id\<close> field of its body;
  a body without such a field has no \<open>id\<close>.\<close>

definition json_id :: "json \<Rightarrow> cell" where
  "json_id j =
     (case json_loads j of
        PDict d \<Rightarrow>
          (case map_of d ''id'' of
             Some (PInt i) \<Rightarrow> CInt i
           | Some (PStr s) \<Rightarrow> CText s
           | _ \<Rightarrow> CNull)
      | _ \<Rightarrow> CNull)"

text \<open>Modelled from the spec: \<open>insert-node.sql\<close>, which is missing, writes a single
  record; \<open>id\<close> is the primary key, so it is there and is not the \<open>id\<close> of a stored row.\<close>

definition insert_node_sql :: "json \<Rightarrow> database \<Rightarrow> exn + database" where
  "insert_node_sql body db =
     (if json_id body = CNull \<or> json_id body \<in> fst ` set (nodes db) then Inl IntegrityError
      else Inr (db\<lparr>nodes := nodes db @ [(json_id body, body)]\<rparr>))"

text \<open>Modelled from the spec: \<open>update-node.sql\<close>, which is missing, has the parameters
  \<open>(body, id)\<close> and replaces the body of the rows whose \<open>id\<close> equals the second one.\<close>

definition update_node_sql :: "json \<Rightarrow> cell \<Rightarrow> database \<Rightarrow> database" where
  "update_node_sql body p db =
     db\<lparr>nodes := map (\<lambda>row. if sql_eq (fst row) p then (fst row, body) else row) (nodes db)\<rparr>"

text \<open>Modelled from the spec: the search templates, which are missing, rendered with the
  single clause \<open>id_lookup\<close>, select the \<open>body\<close> of the rows whose \<open>id\<close> equals the
  parameter, in storage order.\<close>

definition select_node_sql :: "cell \<Rightarrow> database \<Rightarrow> json list" where
  "select_node_sql p db = map snd (filter (\<lambda>row. sql_eq (fst row) p) (nodes db))"

text \<open>Modelled from the spec: the \<open>WHERE\<close> clause of \<open>delete-edge.sql\<close> and
  \<open>search-edges.sql\<close>, which are missing; with the parameters \<open>(p, q)\<close> it holds of the edges
  whose source equals \<open>p\<close> or whose target equals \<open>q\<close>.\<close>

definition edge_touches :: "cell \<Rightarrow> cell \<Rightarrow> cell \<times> cell \<times> json \<Rightarrow> bool" where
  "edge_touches p q e = (sql_eq (fst e) p \<or> sql_eq (fst (snd e)) q)"

text \<open>Modelled from the spec: \<open>delete-edge.sql\<close>, which is missing, deletes the edges
  where the node is source or target.\<close>

definition delete_edge_sql :: "cell \<Rightarrow> cell \<Rightarrow> database \<Rightarrow> database" where
  "delete_edge_sql p q db = db\<lparr>edges := filter (\<lambda>e. \<not> edge_touches p q e) (edges db)\<rparr>"

text \<open>Modelled from the spec: \<open>delete-node.sql\<close>, which is missing, deletes the node
  record with the given \<open>id\<close>.\<close>

definition delete_node_sql :: "cell \<Rightarrow> database \<Rightarrow> database" where
  "delete_node_sql p db = db\<lparr>nodes := filter (\<lambda>row. \<not> sql_eq (fst row) p) (nodes db)\<rparr>"

text \<open>Modelled from the spec: \<open>search-edges.sql\<close>, which is missing, selects the edges
  where the node is source or target, in storage order.\<close>

definition search_edges_sql :: "cell \<Rightarrow> cell \<Rightarrow> database \<Rightarrow> (cell \<times> cell \<times> json) list" where
  "search_edges_sql p q db = filter (edge_touches p q) (edges db)"

section \<open>database.py\<close>

text \<open>
  A unit of work is the closure that an operation returns: it takes the cursor and runs
  statements on it. The cursor works on the connection's own view of the tables, which
  other connections see only after \<open>commit\<close>; the heap is Python's and is outside any
  transaction. A leading underscore of a source name is written as a trailing prime.
\<close>

type_synonym 'r unit_of_work = "database \<Rightarrow> heap \<Rightarrow> (exn + 'r) \<times> database \<times> heap"

text \<open>
  A connection to tables of type \<open>'t\<close>: the view that its cursor reads and writes, and the
  committed content that every later connection starts from. \<open>connect\<close> opens one on the
  committed content, \<open>commit\<close> publishes the view.
\<close>

record 't connection =
  view :: 't
  committed :: 't

definition connect :: "'t \<Rightarrow> 't connection" where
  "connect db = \<lparr>view = db, committed = db\<rparr>"

definition commit :: "'t connection \<Rightarrow> 't connection" where
  "commit c = c\<lparr>committed := view c\<rparr>"

text \<open>
  \<open>atomic(db_url, auth_token, cursor_exec_fn)\<close>: \<open>db\<close> is the committed content of the
  database that \<open>db_url\<close> names, and the backend is taken to be reachable, so that
  \<open>libsql.connect\<close> and the \<open>PRAGMA\<close> succeed (foreign keys are not part of the tables
  here). The unit of work runs on the cursor of the new connection and
  \<open>connection.commit()\<close> publishes its view. There is no \<open>except\<close> clause and the
  \<open>finally\<close> block does nothing, so an exception of the unit of work leaves \<open>atomic\<close> as it
  was raised, before the commit. What \<open>atomic\<close> gives back here is the result or the
  exception, the committed content that the connection leaves behind, and the heap.
\<close>

definition atomic :: "database \<Rightarrow> 'r unit_of_work \<Rightarrow> heap \<Rightarrow> (exn + 'r) \<times> database \<times> heap" where
  "atomic db cursor_exec_fn h =
     (let connection = connect db in
      case cursor_exec_fn (view connection) h of
        (Inr results, cursor, h') \<Rightarrow>
          (Inr results, committed (commit (connection\<lparr>view := cursor\<rparr>)), h')
      | (Inl e, cursor, h') \<Rightarrow> (Inl e, committed (connection\<lparr>view := cursor\<rparr>), h'))"

text \<open>\<open>_set_id(identifier, data)\<close> writes into \<open>data\<close> and returns the same object.\<close>

definition set_id' :: "pyval \<Rightarrow> ref \<Rightarrow> heap \<Rightarrow> heap" where
  "set_id' identifier data h =
     (if identifier \<noteq> PNone then h[data := dict_set ''id'' identifier (h ! data)] else h)"

definition insert_node' :: "pyval \<Rightarrow> ref \<Rightarrow> unit unit_of_work" where
  "insert_node' identifier data cursor h =
     (let h1 = set_id' identifier data h in
      case json_dumps (PDict (h1 ! data)) of
        Inl e \<Rightarrow> (Inl e, cursor, h1)
      | Inr body \<Rightarrow>
          (case insert_node_sql body cursor of
             Inl e \<Rightarrow> (Inl e, cursor, h1)
           | Inr cursor' \<Rightarrow> (Inr (), cursor', h1)))"

definition add_node :: "ref \<Rightarrow> pyval \<Rightarrow> unit unit_of_work" where
  "add_node data identifier = (\<lambda>cursor h. insert_node' identifier data cursor h)"

text \<open>
  \<open>add_nodes\<close>: the list comprehension serialises every node, each right after its
  \<open>_set_id\<close>, before \<open>executemany\<close> runs the first insert.
\<close>

fun dump_nodes :: "(pyval \<times> ref) list \<Rightarrow> heap \<Rightarrow> (exn + json list) \<times> heap" where
  "dump_nodes [] h = (Inr [], h)"
| "dump_nodes (node # rest) h =
     (let h1 = set_id' (fst node) (snd node) h in
      case json_dumps (PDict (h1 ! snd node)) of
        Inl e \<Rightarrow> (Inl e, h1)
      | Inr body \<Rightarrow>
          (case dump_nodes rest h1 of
             (Inl e, h2) \<Rightarrow> (Inl e, h2)
           | (Inr bodies, h2) \<Rightarrow> (Inr (body # bodies), h2)))"

fun executemany_insert :: "json list \<Rightarrow> database \<Rightarrow> (exn + unit) \<times> database" where
  "executemany_insert [] cursor = (Inr (), cursor)"
| "executemany_insert (body # bodies) cursor =
     (case insert_node_sql body cursor of
        Inl e \<Rightarrow> (Inl e, cursor)
      | Inr cursor' \<Rightarrow> executemany_insert bodies cursor')"

definition add_nodes :: "ref list \<Rightarrow> pyval list \<Rightarrow> unit unit_of_work" where
  "add_nodes nodes_list ids =
     (\<lambda>cursor h.
        case dump_nodes (zip ids nodes_list) h of
          (Inl e, h1) \<Rightarrow> (Inl e, cursor, h1)
        | (Inr bodies, h1) \<Rightarrow>
            (case executemany_insert bodies cursor of
               (Inl e, cursor') \<Rightarrow> (Inl e, cursor', h1)
             | (Inr u, cursor') \<Rightarrow> (Inr (), cursor', h1)))"

text \<open>\<open>find_node\<close>: \<open>fetchone()\<close> is the first row or \<open>None\<close>; \<open>{}\<close> when there is no row.\<close>

definition find_node :: "pyval \<Rightarrow> pyval unit_of_work" where
  "find_node identifier =
     (\<lambda>cursor h.
        case sql_bind identifier of
          Inl e \<Rightarrow> (Inl e, cursor, h)
        | Inr p \<Rightarrow>
            (case select_node_sql p cursor of
               [] \<Rightarrow> (Inr (PDict []), cursor, h)
             | body # others \<Rightarrow> (Inr (json_loads body), cursor, h)))"

definition upsert_node' :: "pyval \<Rightarrow> ref \<Rightarrow> unit unit_of_work" where
  "upsert_node' identifier data cursor h =
     (case find_node identifier cursor h of
        (Inl e, c, h0) \<Rightarrow> (Inl e, c, h0)
      | (Inr current_data, c, h0) \<Rightarrow>
          if \<not> py_truthy current_data then insert_node' identifier data c h0
          else
            (case current_data of
               PDict current \<Rightarrow>
                 (let (updated_data, h1) = alloc (dict_merge current (h0 ! data)) h0;
                      h2 = set_id' identifier updated_data h1
                  in case json_dumps (PDict (h2 ! updated_data)) of
                       Inl e \<Rightarrow> (Inl e, c, h2)
                     | Inr body \<Rightarrow>
                         (case sql_bind identifier of
                            Inl e \<Rightarrow> (Inl e, c, h2)
                          | Inr p \<Rightarrow> (Inr (), update_node_sql body p c, h2)))
             | other \<Rightarrow> (Inl TypeError, c, h0)))"

definition upsert_node :: "pyval \<Rightarrow> ref \<Rightarrow> unit unit_of_work" where
  "upsert_node identifier data = (\<lambda>cursor h. upsert_node' identifier data cursor h)"

fun upsert_loop :: "(pyval \<times> ref) list \<Rightarrow> unit unit_of_work" where
  "upsert_loop [] cursor h = (Inr (), cursor, h)"
| "upsert_loop (node # rest) cursor h =
     (case upsert_node' (fst node) (snd node) cursor h of
        (Inl e, c, h1) \<Rightarrow> (Inl e, c, h1)
      | (Inr u, c, h1) \<Rightarrow> upsert_loop rest c h1)"

definition upsert_nodes :: "ref list \<Rightarrow> pyval list \<Rightarrow> unit unit_of_work" where
  "upsert_nodes nodes_list ids = (\<lambda>cursor h. upsert_loop (zip ids nodes_list) cursor h)"

definition remove_node :: "pyval \<Rightarrow> unit unit_of_work" where
  "remove_node identifier =
     (\<lambda>cursor h.
        case sql_bind identifier of
          Inl e \<Rightarrow> (Inl e, cursor, h)
        | Inr p \<Rightarrow>
            (let c1 = delete_edge_sql p p cursor;
                 c2 = delete_node_sql p c1
             in (Inr (), c2, h)))"

definition get_connections :: "pyval \<Rightarrow> (cell \<times> cell \<times> json) list unit_of_work" where
  "get_connections identifier =
     (\<lambda>cursor h.
        case sql_bind identifier of
          Inl e \<Rightarrow> (Inl e, cursor, h)
        | Inr p \<Rightarrow> (Inr (search_edges_sql p p cursor), cursor, h))"

subsection \<open>Traversal\<close>

text \<open>
  \<open>traverse.template\<close> is not part of the sources. \<open>find_neighbors\<close> and its two siblings
  render it with the flags below; the rows that the rendered query yields for a source are
  the parameter \<open>run_query\<close> of \<open>traverse\<close>.
\<close>

record traverse_query =
  with_bodies :: bool
  inbound :: bool
  outbound :: bool

definition find_neighbors :: "bool \<Rightarrow> traverse_query" where
  "find_neighbors wb = \<lparr>with_bodies = wb, inbound = True, outbound = True\<rparr>"

definition find_outbound_neighbors :: "bool \<Rightarrow> traverse_query" where
  "find_outbound_neighbors wb = \<lparr>with_bodies = wb, inbound = False, outbound = True\<rparr>"

definition find_inbound_neighbors :: "bool \<Rightarrow> traverse_query" where
  "find_inbound_neighbors wb = \<lparr>with_bodies = wb, inbound = True, outbound = False\<rparr>"

text \<open>The path holds identifiers, or whole rows when the bodies are asked for.\<close>

datatype path_item = Ident cell | Row "cell list"

text \<open>
  The \<open>for\<close> loop of \<open>_traverse\<close>. \<open>target\<close> is the string \<open>json.dumps(tgt)\<close>, so an
  identifier equals it only when it is the text with these characters. Unpacking a row
  that does not have three columns raises \<open>ValueError\<close>.
\<close>

fun traverse_loop :: "string \<Rightarrow> bool \<Rightarrow> cell list list \<Rightarrow> path_item list \<Rightarrow> exn + path_item list" where
  "traverse_loop target wb [] path = Inr path"
| "traverse_loop target wb (row # rows) path =
     (if row = [] then traverse_loop target wb rows path
      else if wb then
        (case row of
           [identifier, obj, u] \<Rightarrow>
             (if identifier = CText target \<and> obj = CText ''()'' then Inr (path @ [Row row])
              else traverse_loop target wb rows (path @ [Row row]))
         | other \<Rightarrow> Inl ValueError)
      else
        (if Ident (hd row) \<notin> set path then
           (if hd row = CText target then Inr (path @ [Ident (hd row)])
            else traverse_loop target wb rows (path @ [Ident (hd row)]))
         else traverse_loop target wb rows path))"

definition traverse ::
  "(traverse_query \<Rightarrow> cell \<Rightarrow> database \<Rightarrow> cell list list) \<Rightarrow> database \<Rightarrow> pyval \<Rightarrow> pyval \<Rightarrow>
   (bool \<Rightarrow> traverse_query) \<Rightarrow> bool \<Rightarrow> heap \<Rightarrow> (exn + path_item list) \<times> database \<times> heap" where
  "traverse run_query db src tgt neighbors_fn wb h =
     atomic db
       (\<lambda>cursor h0.
          case json_dumps tgt of
            Inl e \<Rightarrow> (Inl e, cursor, h0)
          | Inr target \<Rightarrow>
              (case sql_bind src of
                 Inl e \<Rightarrow> (Inl e, cursor, h0)
               | Inr p \<Rightarrow>
                   (case traverse_loop (json_text target) wb (run_query (neighbors_fn wb) p cursor) [] of
                      Inl e \<Rightarrow> (Inl e, cursor, h0)
                    | Inr path \<Rightarrow> (Inr path, cursor, h0))))
       h"

section \<open>sqlitevss.py\<close>

text \<open>
  The embedding tables hold rows \<open>(rowid, vector)\<close>; the vector is whatever the embedding
  provider returns (type \<open>'v\<close>), and its serialised form is kept as the vector itself.
  The units of work of this module receive the cursor and the connection, and some of
  them commit by themselves.
\<close>

record 'v vss_db =
  nodes_embedding :: "(int \<times> 'v) list"
  relationship_embedding :: "(int \<times> 'v) list"

type_synonym ('v, 'r) vss_unit =
  "'v vss_db connection \<Rightarrow> heap \<Rightarrow> (exn + 'r) \<times> 'v vss_db connection \<times> heap"

text \<open>
  Modelled from the spec: \<open>self.db.atomic\<close> is a method of the database classes
  (\<open>TursoDB\<close>, \<open>SQLite\<close>), which are not part of the sources. By section 4.1 it opens a
  connection, executes the unit of work, commits on normal return, and on a failure inside
  the unit of work rolls back and surfaces a \<open>TransactionError\<close> wrapping the cause.
\<close>

definition db_atomic :: "'v vss_db \<Rightarrow> ('v, 'r) vss_unit \<Rightarrow> heap \<Rightarrow> (exn + 'r) \<times> 'v vss_db \<times> heap" where
  "db_atomic db fn h =
     (case fn (connect db) h of
        (Inr results, c, h') \<Rightarrow> (Inr results, committed (commit c), h')
      | (Inl e, c, h') \<Rightarrow> (Inl (TransactionError e), committed c, h'))"

text \<open>\<open>SELECT COALESCE(MAX(rowid), 0)\<close> plus one: the default 0 stands in for an empty
  table only.\<close>

definition next_rowid :: "(int \<times> 'v) list \<Rightarrow> int" where
  "next_rowid rows =
     (case rows of [] \<Rightarrow> 0 | row # others \<Rightarrow> fold max (map fst others) (fst row)) + 1"

text \<open>Modelled from the spec: \<open>delete-node-embedding.sql\<close> and
  \<open>delete-edge-embedding.sql\<close>, which are missing, remove the embedding rows whose
  identifier equals the parameter; the identifier of a row is the one it was inserted
  with, its \<open>rowid\<close>.\<close>

definition delete_embedding_sql :: "cell \<Rightarrow> (int \<times> 'v) list \<Rightarrow> (int \<times> 'v) list" where
  "delete_embedding_sql p rows = filter (\<lambda>row. \<not> sql_eq (CInt (fst row)) p) rows"

text \<open>\<open>x[0]\<close> and \<open>for x in xs\<close> on a Python value.\<close>

fun py_index0 :: "pyval \<Rightarrow> exn + pyval" where
  "py_index0 (PList []) = Inl IndexError"
| "py_index0 (PList (x # xs)) = Inr x"
| "py_index0 (PStr []) = Inl IndexError"
| "py_index0 (PStr (c # cs)) = Inr (PStr [c])"
| "py_index0 (PDict d) = Inl KeyError"
| "py_index0 v = Inl TypeError"

fun py_iter :: "pyval \<Rightarrow> exn + pyval list" where
  "py_iter (PList xs) = Inr xs"
| "py_iter (PStr s) = Inr (map (\<lambda>c. PStr [c]) s)"
| "py_iter (PDict d) = Inr (map (\<lambda>kv. PStr (fst kv)) d)"
| "py_iter v = Inl TypeError"

definition vss_set_id' :: "pyval \<Rightarrow> ref \<Rightarrow> heap \<Rightarrow> heap" where
  "vss_set_id' identifier data h =
     (if identifier \<noteq> PNone then h[data := dict_set ''id'' identifier (h ! data)] else h)"

text \<open>Modelled from the spec: \<open>insert-node-embedding.sql\<close>, which is missing, persists the
  pair of the sequence id and the vector.\<close>

definition insert_node_embedding_sql :: "int \<Rightarrow> 'v \<Rightarrow> 'v vss_db \<Rightarrow> 'v vss_db" where
  "insert_node_embedding_sql count vec db =
     db\<lparr>nodes_embedding := nodes_embedding db @ [(count, vec)]\<rparr>"

text \<open>\<open>_add_embedding\<close>; \<open>get_embedding\<close> is the external provider and may fail.\<close>

definition add_embedding' :: "(string \<Rightarrow> exn + 'v) \<Rightarrow> pyval \<Rightarrow> ref \<Rightarrow> ('v, unit) vss_unit" where
  "add_embedding' get_embedding ident data =
     (\<lambda>c h.
        let h1 = vss_set_id' ident data h;
            count = next_rowid (nodes_embedding (view c))
        in case json_dumps (PDict (h1 ! data)) of
             Inl e \<Rightarrow> (Inl e, c, h1)
           | Inr text \<Rightarrow>
               (case get_embedding (json_text text) of
                  Inl e \<Rightarrow> (Inl e, c, h1)
                | Inr vec \<Rightarrow>
                    (let c1 = c\<lparr>view := insert_node_embedding_sql count vec (view c)\<rparr>
                     in (Inr (), commit c1, h1))))"

definition add_node_embedding ::
  "(string \<Rightarrow> exn + 'v) \<Rightarrow> 'v vss_db \<Rightarrow> pyval \<Rightarrow> ref \<Rightarrow> heap \<Rightarrow> (exn + unit) \<times> 'v vss_db \<times> heap" where
  "add_node_embedding get_embedding db ident attribute h =
     db_atomic db (add_embedding' get_embedding ident attribute) h"

definition vss_remove_node' :: "pyval \<Rightarrow> ('v, unit) vss_unit" where
  "vss_remove_node' ident =
     (\<lambda>c h.
        case py_index0 ident of
          Inl e \<Rightarrow> (Inl e, c, h)
        | Inr key \<Rightarrow>
            (case sql_bind key of
               Inl e \<Rightarrow> (Inl e, c, h)
             | Inr p \<Rightarrow>
                 (Inr (), c\<lparr>view := (view c)\<lparr>nodes_embedding :=
                            delete_embedding_sql p (nodes_embedding (view c))\<rparr>\<rparr>, h)))"

fun remove_edge_loop :: "pyval list \<Rightarrow> ('v, unit) vss_unit" where
  "remove_edge_loop [] c h = (Inr (), c, h)"
| "remove_edge_loop (ident # rest) c h =
     (case py_index0 ident of
        Inl e \<Rightarrow> (Inl e, c, h)
      | Inr key \<Rightarrow>
          (case sql_bind key of
             Inl e \<Rightarrow> (Inl e, c, h)
           | Inr p \<Rightarrow>
               remove_edge_loop rest
                 (c\<lparr>view := (view c)\<lparr>relationship_embedding :=
                      delete_embedding_sql p (relationship_embedding (view c))\<rparr>\<rparr>) h))"

definition vss_remove_edge' :: "pyval \<Rightarrow> ('v, unit) vss_unit" where
  "vss_remove_edge' ids =
     (\<lambda>c h. case py_iter ids of Inl e \<Rightarrow> (Inl e, c, h) | Inr xs \<Rightarrow> remove_edge_loop xs c h)"

definition delete_node_embedding ::
  "'v vss_db \<Rightarrow> pyval \<Rightarrow> heap \<Rightarrow> (exn + unit) \<times> 'v vss_db \<times> heap" where
  "delete_node_embedding db ident h = db_atomic db (vss_remove_node' ident) h"

definition delete_edge_embedding ::
  "'v vss_db \<Rightarrow> pyval \<Rightarrow> heap \<Rightarrow> (exn + unit) \<times> 'v vss_db \<times> heap" where
  "delete_edge_embedding db ids h = db_atomic db (vss_remove_edge' ids) h"

text \<open>
  A row of the similarity scan: \<open>node[4]\<close>, its fifth column, is the distance (of an
  ordered type \<open>'d\<close>); the four columns before it are \<open>columns\<close>. \<open>xs[:n]\<close> drops the
  last \<open>-n\<close> elements when \<open>n\<close> is negative. The scan itself (\<open>vector-search-node.sql\<close>
  and the vector index) is the parameter \<open>scan\<close>.
\<close>

record 'd hit =
  columns :: "cell list"
  distance :: 'd

definition py_slice_to :: "int \<Rightarrow> 'a list \<Rightarrow> 'a list" where
  "py_slice_to n xs = (if 0 \<le> n then take (nat n) xs else take (length xs - nat (- n)) xs)"

definition search_node' ::
  "(string \<Rightarrow> exn + 'v) \<Rightarrow> ('v \<Rightarrow> int \<Rightarrow> string \<Rightarrow> bool \<Rightarrow> 'v vss_db \<Rightarrow> ('d::ord) hit list) \<Rightarrow>
   string \<Rightarrow> 'd option \<Rightarrow> bool \<Rightarrow> int \<Rightarrow> string \<Rightarrow> ('v, 'd hit list option) vss_unit" where
  "search_node' get_embedding scan data threshold descending limit sort_by =
     (\<lambda>c h.
        case get_embedding data of
          Inl e \<Rightarrow> (Inl e, c, h)
        | Inr embed_json \<Rightarrow>
            (let nodes_found = scan embed_json limit sort_by descending (view c) in
             if nodes_found = [] then (Inr None, c, h)
             else
               (case threshold of
                  Some t \<Rightarrow> (Inr (Some (py_slice_to limit (filter (\<lambda>node. distance node < t) nodes_found))), c, h)
                | None \<Rightarrow> (Inr (Some (py_slice_to limit nodes_found)), c, h))))"

definition vector_search_node ::
  "(string \<Rightarrow> exn + 'v) \<Rightarrow> ('v \<Rightarrow> int \<Rightarrow> string \<Rightarrow> bool \<Rightarrow> 'v vss_db \<Rightarrow> ('d::ord) hit list) \<Rightarrow>
   'v vss_db \<Rightarrow> string \<Rightarrow> 'd option \<Rightarrow> bool \<Rightarrow> int \<Rightarrow> string \<Rightarrow> heap \<Rightarrow>
   (exn + 'd hit list option) \<times> 'v vss_db \<times> heap" where
  "vector_search_node get_embedding scan db data threshold descending limit sort_by h =
     db_atomic db (search_node' get_embedding scan data threshold descending limit sort_by) h"

section \<open>Notions used in the statements\<close>

text \<open>An identifier is a string or an integer (\<open>models.py\<close>: \<open>id: Union[int, str]\<close>).\<close>

definition is_identifier :: "pyval \<Rightarrow> bool" where
  "is_identifier v = (case v of PInt i \<Rightarrow> True | PStr s \<Rightarrow> True | other \<Rightarrow> False)"

text \<open>The invariant of the data model: every stored body has an \<open>id\<close> field that mirrors
  the \<open>id\<close> of its row.\<close>

definition id_mirrored :: "database \<Rightarrow> bool" where
  "id_mirrored db = (\<forall>row \<in> set (nodes db). fst row \<noteq> CNull \<and> json_id (snd row) = fst row)"

text \<open>A batch element is malformed when, under a key other than \<open>"id"\<close>, it holds a value
  that \<open>json.dumps\<close> cannot serialise.\<close>

definition malformed :: "heap \<Rightarrow> ref \<Rightarrow> bool" where
  "malformed h r = (\<exists>kv \<in> set (h ! r). fst kv \<noteq> ''id'' \<and> \<not> json_ok (snd kv))"

text \<open>Two nodes \<open>A\<close> and \<open>B\<close> and the edge from \<open>A\<close> to \<open>B\<close>.\<close>

definition ab_db :: database where
  "ab_db = \<lparr>nodes = [(CText ''A'', Json (PDict [(''id'', PStr ''A'')])),
                     (CText ''B'', Json (PDict [(''id'', PStr ''B'')]))],
            edges = [(CText ''A'', CText ''B'', Json (PDict []))]\<rparr>"

text \<open>
  A provider, a scan and tables for evaluating the search: the scan finds nothing in empty
  tables and otherwise three rows at the distances 1, 4 and 9.
\<close>

definition example_embedding :: "string \<Rightarrow> exn + unit" where
  "example_embedding text = Inr ()"

definition example_hits :: "int hit list" where
  "example_hits = [\<lparr>columns = [CInt 1], distance = 1\<rparr>, \<lparr>columns = [CInt 2], distance = 4\<rparr>,
                   \<lparr>columns = [CInt 3], distance = 9\<rparr>]"

definition example_scan :: "unit \<Rightarrow> int \<Rightarrow> string \<Rightarrow> bool \<Rightarrow> unit vss_db \<Rightarrow> int hit list" where
  "example_scan v limit sort_by descending db = (if nodes_embedding db = [] then [] else example_hits)"

definition example_vss :: "unit vss_db" where
  "example_vss = \<lparr>nodes_embedding = [(1, ()), (2, ()), (3, ())], relationship_embedding = []\<rparr>"

definition empty_vss :: "'v vss_db" where
  "empty_vss = \<lparr>nodes_embedding = [], relationship_embedding = []\<rparr>"

text \<open>The identifiers that the loop of \<open>traverse\<close> reads from the adjacency rows: the
  first column of every row that is not empty.\<close>

definition row_identifiers :: "cell list list \<Rightarrow> cell list" where
  "row_identifiers rows = map hd (filter (\<lambda>row. row \<noteq> []) rows)"

text \<open>Adjacency rows for evaluating \<open>traverse\<close>: \<open>B\<close> and \<open>C\<close> for the source \<open>A\<close>,
  \<open>null\<close> and \<open>C\<close> for the source \<open>N\<close>, and \<open>2\<close>, \<open>3\<close>, \<open>2\<close>, \<open>4\<close> for the source 1.\<close>

definition example_adjacency :: "traverse_query \<Rightarrow> cell \<Rightarrow> database \<Rightarrow> cell list list" where
  "example_adjacency q p db =
     (if p = CText ''A'' then [[CText ''B''], [CText ''C'']]
      else if p = CText ''N'' then [[CText ''null''], [CText ''C'']]
      else if p = CInt 1 then [[CText ''2''], [CText ''3''], [CText ''2''], [CText ''4'']]
      else [])"

text \<open>The elements of a list in the order of their first occurrence, and a list up to and
  including the first occurrence of an element (the whole list when it does not occur).\<close>

fun first_seen :: "'a list \<Rightarrow> 'a list" where
  "first_seen [] = []"
| "first_seen (x # xs) = x # filter (\<lambda>y. y \<noteq> x) (first_seen xs)"

fun up_to :: "'a \<Rightarrow> 'a list \<Rightarrow> 'a list" where
  "up_to x [] = []"
| "up_to x (y # ys) = (if y = x then [y] else y # up_to x ys)"

text \<open>A node is stored with an identifier when the lookup by that identifier finds a record
  and every record it finds holds the identifier under \<open>"id"\<close> in its attributes.\<close>

definition stored_with_id :: "database \<Rightarrow> pyval \<Rightarrow> bool" where
  "stored_with_id db identifier =
     (case sql_bind identifier of
        Inl e \<Rightarrow> False
      | Inr p \<Rightarrow>
          select_node_sql p db \<noteq> [] \<and>
          (\<forall>body \<in> set (select_node_sql p db).
             case json_loads body of
               PDict d \<Rightarrow> map_of d ''id'' = Some identifier
             | other \<Rightarrow> False))"

text \<open>The dictionaries \<open>{"x": 1}\<close>, \<open>{"id": 5}\<close> and \<open>{"y": 2}\<close>.\<close>

definition three_dicts :: heap where
  "three_dicts = [[(''x'', PInt 1)], [(''id'', PInt 5)], [(''y'', PInt 2)]]"

text \<open>The three dictionaries \<open>{"a": 1}\<close>, \<open>{"b": 2}\<close> and \<open>{"a": 3}\<close> of the upsert example,
  and \<open>ab_db\<close> after \<open>{"x": 1}\<close> has been merged into node \<open>A\<close>.\<close>

definition scenario_heap :: heap where
  "scenario_heap = [[(''a'', PInt 1)], [(''b'', PInt 2)], [(''a'', PInt 3)]]"

definition ab_db_x :: database where
  "ab_db_x = \<lparr>nodes = [(CText ''A'', Json (PDict [(''id'', PStr ''A''), (''x'', PInt 1)])),
                       (CText ''B'', Json (PDict [(''id'', PStr ''B'')]))],
              edges = [(CText ''A'', CText ''B'', Json (PDict []))]\<rparr>"

section \<open>Properties\<close>

subsection \<open>Dictionaries, identifiers and the node table\<close>

lemma atomic_eq:
  "atomic db fn h =
     (case fn db h of
        (Inr results, cursor, h') \<Rightarrow> (Inr results, cursor, h')
      | (Inl e, cursor, h') \<Rightarrow> (Inl e, db, h'))"
  by (simp add: atomic_def connect_def commit_def Let_def split: prod.splits sum.splits)

lemma map_of_dict_set: "map_of (dict_set k v d) = (map_of d)(k \<mapsto> v)"
  by (induction d) (auto simp: fun_eq_iff)

lemma is_identifier_bind: "is_identifier v \<Longrightarrow> \<exists>p. sql_bind v = Inr p \<and> p \<noteq> CNull"
  by (cases v) (auto simp: is_identifier_def)

lemma json_id_set:
  "is_identifier v \<Longrightarrow> sql_bind v = Inr (json_id (Json (PDict (dict_set ''id'' v d))))"
  by (cases v) (auto simp: is_identifier_def json_id_def map_of_dict_set)

lemma select_absent:
  "\<forall>row \<in> set rows. fst row \<noteq> p \<Longrightarrow> filter (\<lambda>row. sql_eq (fst row) p) rows = []"
  by (induction rows) (auto simp: sql_eq_def)

lemma select_appended:
  "k \<noteq> CNull \<Longrightarrow> k \<notin> fst ` set rows \<Longrightarrow>
   map snd (filter (\<lambda>row. sql_eq (fst row) k) (rows @ [(k, b)])) = [b]"
  by (induction rows) (auto simp: sql_eq_def)

lemma insert_node_sql_select:
  "insert_node_sql body db = Inr db' \<Longrightarrow> select_node_sql (json_id body) db' = [body]"
proof -
  assume a: "insert_node_sql body db = Inr db'"
  then have k: "json_id body \<noteq> CNull" "json_id body \<notin> fst ` set (nodes db)"
    and db': "nodes db' = nodes db @ [(json_id body, body)]"
    by (auto simp: insert_node_sql_def split: if_splits)
  show ?thesis
    unfolding select_node_sql_def db' by (rule select_appended[OF k])
qed

lemma insert_node'_heap:
  "insert_node' identifier data cursor h = (r, c', h') \<Longrightarrow> h' = set_id' identifier data h"
  by (auto simp: insert_node'_def Let_def split: sum.splits)

subsection \<open>find_node on an absent identifier\<close>

text \<open>
  Claim C8. For every identifier, \<open>find_node\<close> run through \<open>atomic\<close> returns normally and
  leaves the database and the heap as they were; when no row of \<open>nodes\<close> has that
  identifier, what it returns is the empty dictionary.
\<close>

theorem find_node_absent:
  assumes "is_identifier identifier"
  shows "(\<exists>d. atomic db (find_node identifier) h = (Inr d, db, h)) \<and>
         ((\<forall>row \<in> set (nodes db). sql_bind identifier \<noteq> Inr (fst row)) \<longrightarrow>
            atomic db (find_node identifier) h = (Inr (PDict []), db, h))"
proof -
  from is_identifier_bind[OF assms] obtain p where p: "sql_bind identifier = Inr p" by blast
  have total: "\<exists>d. atomic db (find_node identifier) h = (Inr d, db, h)"
    by (simp add: atomic_eq find_node_def p split: list.splits)
  have absent: "atomic db (find_node identifier) h = (Inr (PDict []), db, h)"
    if "\<forall>row \<in> set (nodes db). sql_bind identifier \<noteq> Inr (fst row)"
  proof -
    from that p have "\<forall>row \<in> set (nodes db). fst row \<noteq> p" by auto
    then have "select_node_sql p db = []"
      by (simp add: select_node_sql_def select_absent)
    then show ?thesis by (simp add: atomic_eq find_node_def p)
  qed
  from total absent show ?thesis by blast
qed

theorem find_node_absent_witness:
  "is_identifier (PInt 7) \<and>
   (\<exists>d. atomic empty_db (find_node (PInt 7)) [] = (Inr d, empty_db, [])) \<and>
   atomic empty_db (find_node (PInt 7)) [] = (Inr (PDict []), empty_db, [])"
proof -
  have i: "is_identifier (PInt 7)" by (simp add: is_identifier_def)
  from find_node_absent[OF i, of empty_db "[]"] i show ?thesis
    by (simp add: empty_db_def)
qed

subsection \<open>Round trip of add_node and find_node\<close>

lemma dict_set_values:
  "kv \<in> set (dict_set k v d) \<Longrightarrow> kv = (k, v) \<or> kv \<in> set d"
  by (induction d) (auto split: if_splits)

text \<open>
  Claim C5. After \<open>add_node(attrs, id)\<close> has run through \<open>atomic\<close>, \<open>find_node(id)\<close> returns
  the dictionary \<open>attrs\<close> had at the call with \<open>id\<close> stored under the key \<open>"id"\<close>: the same
  keys in the same order, the same values, and nothing else. \<open>add_node\<close> does return when
  the values of \<open>attrs\<close> can be serialised and no node has the identifier.
\<close>

theorem add_node_round_trip:
  assumes ident: "is_identifier identifier"
    and ref: "data < length h"
  shows "(atomic db (add_node data identifier) h = (Inr u, db', h') \<longrightarrow>
            atomic db' (find_node identifier) h' =
              (Inr (PDict (dict_set ''id'' identifier (h ! data))), db', h')) \<and>
         map_of (dict_set ''id'' identifier (h ! data)) = (map_of (h ! data))(''id'' \<mapsto> identifier) \<and>
         ((\<forall>kv \<in> set (h ! data). json_ok (snd kv)) \<and>
          (\<forall>row \<in> set (nodes db). sql_bind identifier \<noteq> Inr (fst row)) \<longrightarrow>
            (\<exists>db1. atomic db (add_node data identifier) h =
               (Inr (), db1, h[data := dict_set ''id'' identifier (h ! data)])))"
proof (intro conjI impI)
  let ?stored = "dict_set ''id'' identifier (h ! data)"
  from ident have nn: "identifier \<noteq> PNone" by (auto simp: is_identifier_def)
  have cell: "(set_id' identifier data h) ! data = ?stored"
    using ref nn by (simp add: set_id'_def)
  have bind: "sql_bind identifier = Inr (json_id (Json (PDict ?stored)))"
    by (rule json_id_set[OF ident])
  {
    assume added: "atomic db (add_node data identifier) h = (Inr u, db', h')"
    then have ins: "insert_node_sql (Json (PDict ?stored)) db = Inr db'"
      by (auto simp: atomic_eq add_node_def insert_node'_def Let_def cell json_dumps_def
               split: sum.splits if_splits prod.splits)
    have sel: "select_node_sql (json_id (Json (PDict ?stored))) db' = [Json (PDict ?stored)]"
      by (rule insert_node_sql_select[OF ins])
    show "atomic db' (find_node identifier) h' = (Inr (PDict ?stored), db', h')"
      by (simp add: atomic_eq find_node_def bind sel)
  }
  show "map_of ?stored = (map_of (h ! data))(''id'' \<mapsto> identifier)"
    by (simp add: map_of_dict_set)
  {
    assume a: "(\<forall>kv \<in> set (h ! data). json_ok (snd kv)) \<and>
          (\<forall>row \<in> set (nodes db). sql_bind identifier \<noteq> Inr (fst row))"
    from ident have "json_ok identifier" by (cases "identifier") (auto simp: is_identifier_def)
    with a have ok: "json_ok (PDict ?stored)"
      by (auto dest: dict_set_values)
    from is_identifier_bind[OF ident] bind a
    have fresh: "json_id (Json (PDict ?stored)) \<noteq> CNull"
      "json_id (Json (PDict ?stored)) \<notin> fst ` set (nodes db)"
      by auto
    have "atomic db (add_node data identifier) h =
        (Inr (), db\<lparr>nodes := nodes db @ [(json_id (Json (PDict ?stored)), Json (PDict ?stored))]\<rparr>,
         set_id' identifier data h)"
      using ok fresh
      by (simp add: atomic_eq add_node_def insert_node'_def Let_def cell json_dumps_def
          insert_node_sql_def del: json_ok.simps)
    then show "\<exists>db1. atomic db (add_node data identifier) h = (Inr (), db1, h[data := ?stored])"
      using nn by (simp add: set_id'_def)
  }
qed

theorem add_node_round_trip_witness:
  "atomic empty_db (add_node 0 (PInt 7)) [[(''a'', PInt 1)]] =
     (Inr (), \<lparr>nodes = [(CInt 7, Json (PDict [(''a'', PInt 1), (''id'', PInt 7)]))], edges = []\<rparr>,
      [[(''a'', PInt 1), (''id'', PInt 7)]]) \<and>
   atomic \<lparr>nodes = [(CInt 7, Json (PDict [(''a'', PInt 1), (''id'', PInt 7)]))], edges = []\<rparr>
     (find_node (PInt 7)) [[(''a'', PInt 1), (''id'', PInt 7)]] =
   (Inr (PDict [(''a'', PInt 1), (''id'', PInt 7)]),
    \<lparr>nodes = [(CInt 7, Json (PDict [(''a'', PInt 1), (''id'', PInt 7)]))], edges = []\<rparr>,
    [[(''a'', PInt 1), (''id'', PInt 7)]])"
proof -
  let ?h = "[[(''a'', PInt 1)]]"
  let ?db' = "\<lparr>nodes = [(CInt 7, Json (PDict [(''a'', PInt 1), (''id'', PInt 7)]))], edges = []\<rparr>"
  let ?h' = "[[(''a'', PInt 1), (''id'', PInt 7)]]"
  have i: "is_identifier (PInt 7)" by (simp add: is_identifier_def)
  have r: "(0::nat) < length ?h" by simp
  have a: "atomic empty_db (add_node 0 (PInt 7)) ?h = (Inr (), ?db', ?h')"
    by (simp add: atomic_eq add_node_def insert_node'_def set_id'_def json_dumps_def
        insert_node_sql_def json_id_def empty_db_def)
  have ok: "(\<forall>kv \<in> set (?h ! 0). json_ok (snd kv)) \<and>
      (\<forall>row \<in> set (nodes empty_db). sql_bind (PInt 7) \<noteq> Inr (fst row))"
    by (simp add: empty_db_def)
  note th = add_node_round_trip[OF i r, where db = empty_db and u = "()" and db' = ?db' and h' = ?h']
  from th ok have "\<exists>db1. atomic empty_db (add_node 0 (PInt 7)) ?h = (Inr (), db1, ?h')"
    by simp
  moreover from th a have "atomic ?db' (find_node (PInt 7)) ?h' =
      (Inr (PDict [(''a'', PInt 1), (''id'', PInt 7)]), ?db', ?h')"
    by simp
  ultimately show ?thesis using a by simp
qed

subsection \<open>The transaction wrapper\<close>

lemma dict_set_keeps_others:
  "kv \<in> set d \<Longrightarrow> fst kv \<noteq> k \<Longrightarrow> kv \<in> set (dict_set k v d)"
  by (induction d) auto

lemma malformed_set_id': "malformed h r \<Longrightarrow> malformed (set_id' i r0 h) r"
proof (cases "r0 = r \<and> r < length h \<and> i \<noteq> PNone")
  case True
  assume "malformed h r"
  then obtain kv where kv: "kv \<in> set (h ! r)" "fst kv \<noteq> ''id''" "\<not> json_ok (snd kv)"
    by (auto simp: malformed_def)
  from True have "set_id' i r0 h ! r = dict_set ''id'' i (h ! r)"
    by (simp add: set_id'_def)
  with kv dict_set_keeps_others[OF kv(1,2)] show ?thesis
    by (auto simp: malformed_def)
next
  case False
  assume m: "malformed h r"
  from False have "set_id' i r0 h ! r = h ! r"
    by (cases "r0 = r") (auto simp: set_id'_def list_update_beyond)
  with m show ?thesis by (simp add: malformed_def)
qed

lemma malformed_not_json_ok: "malformed h r \<Longrightarrow> json_dumps (PDict (h ! r)) = Inl TypeError"
  by (auto simp: malformed_def json_dumps_def)

lemma dump_nodes_malformed:
  "node \<in> set zs \<Longrightarrow> malformed h (snd node) \<Longrightarrow> \<exists>h'. dump_nodes zs h = (Inl TypeError, h')"
proof (induction zs arbitrary: h)
  case Nil
  then show ?case by simp
next
  case (Cons z zs)
  let ?h1 = "set_id' (fst z) (snd z) h"
  have m1: "malformed ?h1 (snd node)" by (rule malformed_set_id'[OF Cons.prems(2)])
  show ?case
  proof (cases "json_dumps (PDict (?h1 ! snd z))")
    case (Inl e)
    then have "e = TypeError" by (auto simp: json_dumps_def split: if_splits)
    with Inl show ?thesis by (simp add: Let_def)
  next
    case (Inr body)
    with m1 have "node \<noteq> z" by (auto dest: malformed_not_json_ok)
    with Cons.prems(1) have "node \<in> set zs" by simp
    from Cons.IH[OF this m1] obtain h' where "dump_nodes zs ?h1 = (Inl TypeError, h')" by blast
    with Inr show ?thesis by (simp add: Let_def)
  qed
qed

text \<open>
  Claim C1, as the code has it. \<open>atomic\<close> runs the unit of work on a new connection and
  commits when the unit returns: the result and the unit's view of the tables come back.
  When the unit raises, the exception leaves \<open>atomic\<close> as it is (no wrapper), nothing is
  committed, and the database is the one before the call. A batch \<open>add_nodes\<close> with a
  malformed element raises \<open>TypeError\<close> and persists none of its nodes.
\<close>

theorem atomic_commit_or_nothing:
  "(succeeding db h = (Inr r, c1, h1) \<longrightarrow> atomic db succeeding h = (Inr r, c1, h1)) \<and>
   (failing db h = (Inl e, c2, h2) \<longrightarrow> atomic db failing h = (Inl e, db, h2)) \<and>
   (node \<in> set (zip ids nodes_list) \<and> malformed h (snd node) \<longrightarrow>
      (\<exists>h'. atomic db (add_nodes nodes_list ids) h = (Inl TypeError, db, h')))"
proof (intro conjI impI)
  assume "succeeding db h = (Inr r, c1, h1)"
  then show "atomic db succeeding h = (Inr r, c1, h1)" by (simp add: atomic_eq)
next
  assume "failing db h = (Inl e, c2, h2)"
  then show "atomic db failing h = (Inl e, db, h2)" by (simp add: atomic_eq)
next
  assume "node \<in> set (zip ids nodes_list) \<and> malformed h (snd node)"
  then obtain h' where "dump_nodes (zip ids nodes_list) h = (Inl TypeError, h')"
    using dump_nodes_malformed by blast
  then show "\<exists>h'. atomic db (add_nodes nodes_list ids) h = (Inl TypeError, db, h')"
    by (simp add: atomic_eq add_nodes_def)
qed

theorem atomic_commit_or_nothing_witness:
  "atomic empty_db (add_node 0 (PInt 1)) [[], [(''x'', PObject 0)]] =
     (Inr (), \<lparr>nodes = [(CInt 1, Json (PDict [(''id'', PInt 1)]))], edges = []\<rparr>,
      [[(''id'', PInt 1)], [(''x'', PObject 0)]]) \<and>
   atomic empty_db (add_node 1 (PInt 2)) [[], [(''x'', PObject 0)]] =
     (Inl TypeError, empty_db, [[], [(''x'', PObject 0), (''id'', PInt 2)]]) \<and>
   (\<exists>h'. atomic empty_db (add_nodes [0, 1] [PInt 1, PInt 2]) [[], [(''x'', PObject 0)]] =
      (Inl TypeError, empty_db, h'))"
proof -
  let ?h = "[[], [(''x'', PObject 0)]]"
  have a: "add_node 0 (PInt 1) empty_db ?h =
     (Inr (), \<lparr>nodes = [(CInt 1, Json (PDict [(''id'', PInt 1)]))], edges = []\<rparr>,
      [[(''id'', PInt 1)], [(''x'', PObject 0)]])"
    by (simp add: add_node_def insert_node'_def set_id'_def json_dumps_def
        insert_node_sql_def json_id_def empty_db_def)
  have b: "add_node 1 (PInt 2) empty_db ?h =
     (Inl TypeError, empty_db, [[], [(''x'', PObject 0), (''id'', PInt 2)]])"
    by (simp add: add_node_def insert_node'_def set_id'_def json_dumps_def)
  have c: "(PInt 2, 1) \<in> set (zip [PInt 1, PInt 2] [0, 1::nat]) \<and> malformed ?h (snd (PInt 2, 1::nat))"
    by (simp add: malformed_def)
  from atomic_commit_or_nothing[of "add_node 0 (PInt 1)" empty_db ?h "()" _ _ "add_node 1 (PInt 2)" TypeError
      _ _ "(PInt 2, 1)" "[PInt 1, PInt 2]" "[0, 1]"] a b c
  show ?thesis by simp
qed

text \<open>
  The failure of a unit of work is not surfaced as a \<open>TransactionError\<close>: the batch with
  an unserialisable second element leaves \<open>atomic\<close> with the \<open>TypeError\<close> of \<open>json.dumps\<close>.
\<close>

theorem atomic_failure_not_wrapped:
  "fst (atomic empty_db (add_nodes [0, 1] [PInt 1, PInt 2]) [[], [(''x'', PObject 0)]]) = Inl TypeError \<and>
   fst (atomic empty_db (add_nodes [0, 1] [PInt 1, PInt 2]) [[], [(''x'', PObject 0)]]) \<noteq>
     Inl (TransactionError TypeError)"
  by (simp add: atomic_eq add_nodes_def set_id'_def json_dumps_def Let_def)

subsection \<open>Cascading delete\<close>

lemma bind_inj: "is_identifier a \<Longrightarrow> is_identifier b \<Longrightarrow> sql_bind a = sql_bind b \<Longrightarrow> a = b"
  by (cases a; cases b) (auto simp: is_identifier_def)

lemma select_after_delete:
  "q \<noteq> p \<Longrightarrow> select_node_sql q (delete_node_sql p db) = select_node_sql q db"
proof -
  assume qp: "q \<noteq> p"
  have "filter (\<lambda>row. sql_eq (fst row) q) (filter (\<lambda>row. \<not> sql_eq (fst row) p) rows) =
        filter (\<lambda>row. sql_eq (fst row) q) rows" for rows :: "(cell \<times> json) list"
    using qp by (induction rows) (auto simp: sql_eq_def)
  then show ?thesis by (simp add: select_node_sql_def delete_node_sql_def)
qed

text \<open>
  Claim C4. The unit of work of \<open>remove_node\<close> runs \<open>delete-edge.sql\<close> and then
  \<open>delete-node.sql\<close>: after the first statement no edge has the node as source or target
  and the node table is untouched, after the second the node's row is gone and the edges
  are as the first statement left them; \<open>atomic\<close> commits both together. Afterwards
  \<open>find_node\<close> of any other identifier returns what it returned before, and
  \<open>get_connections\<close> of it returns its former connections without those of the removed
  node: none when all of them were with the removed node.
\<close>

theorem remove_node_cascades:
  assumes a: "is_identifier a" and b: "is_identifier b" and ab: "a \<noteq> b"
    and p: "sql_bind a = Inr p" and q: "sql_bind b = Inr q"
  shows "remove_node a db h = (Inr (), delete_node_sql p (delete_edge_sql p p db), h) \<and>
         nodes (delete_edge_sql p p db) = nodes db \<and>
         (\<forall>e \<in> set (edges (delete_edge_sql p p db)). fst e \<noteq> p \<and> fst (snd e) \<noteq> p) \<and>
         edges (delete_node_sql p (delete_edge_sql p p db)) = edges (delete_edge_sql p p db) \<and>
         (\<forall>row \<in> set (nodes (delete_node_sql p (delete_edge_sql p p db))). fst row \<noteq> p) \<and>
         atomic db (remove_node a) h = (Inr (), delete_node_sql p (delete_edge_sql p p db), h) \<and>
         fst (atomic (delete_node_sql p (delete_edge_sql p p db)) (find_node b) h) =
           fst (atomic db (find_node b) h) \<and>
         fst (atomic (delete_node_sql p (delete_edge_sql p p db)) (get_connections b) h) =
           Inr (filter (\<lambda>e. \<not> edge_touches p p e) (search_edges_sql q q db)) \<and>
         ((\<forall>e \<in> set (edges db). edge_touches q q e \<longrightarrow> edge_touches p p e) \<longrightarrow>
            fst (atomic (delete_node_sql p (delete_edge_sql p p db)) (get_connections b) h) = Inr [])"
proof -
  let ?c1 = "delete_edge_sql p p db"
  let ?c2 = "delete_node_sql p ?c1"
  from a p have pn: "p \<noteq> CNull" by (cases a) (auto simp: is_identifier_def)
  from a b ab p q have qp: "q \<noteq> p" using bind_inj by fastforce
  have unit: "remove_node a db h = (Inr (), ?c2, h)"
    by (simp add: remove_node_def p)
  have n1: "nodes ?c1 = nodes db" by (simp add: delete_edge_sql_def)
  have e1: "\<forall>e \<in> set (edges ?c1). fst e \<noteq> p \<and> fst (snd e) \<noteq> p"
    using pn by (auto simp: delete_edge_sql_def edge_touches_def sql_eq_def)
  have e2: "edges ?c2 = edges ?c1" by (simp add: delete_node_sql_def)
  have n2: "\<forall>row \<in> set (nodes ?c2). fst row \<noteq> p"
    using pn by (auto simp: delete_node_sql_def sql_eq_def)
  have at: "atomic db (remove_node a) h = (Inr (), ?c2, h)"
    by (simp add: atomic_eq unit)
  have sel: "select_node_sql q ?c2 = select_node_sql q db"
    using select_after_delete[OF qp, of ?c1] by (simp add: select_node_sql_def n1)
  have fn: "fst (atomic ?c2 (find_node b) h) = fst (atomic db (find_node b) h)"
    by (simp add: atomic_eq find_node_def q sel split: list.splits)
  have conn: "search_edges_sql q q ?c2 = filter (\<lambda>e. \<not> edge_touches p p e) (search_edges_sql q q db)"
    by (auto simp: search_edges_sql_def delete_node_sql_def delete_edge_sql_def intro: filter_cong)
  have gc: "fst (atomic ?c2 (get_connections b) h) =
           Inr (filter (\<lambda>e. \<not> edge_touches p p e) (search_edges_sql q q db))"
    by (simp add: atomic_eq get_connections_def q conn)
  have empty: "fst (atomic ?c2 (get_connections b) h) = Inr []"
    if "\<forall>e \<in> set (edges db). edge_touches q q e \<longrightarrow> edge_touches p p e"
  proof -
    from that have "filter (\<lambda>e. \<not> edge_touches p p e) (search_edges_sql q q db) = []"
      by (auto simp: search_edges_sql_def filter_empty_conv)
    with gc show ?thesis by simp
  qed
  from unit n1 e1 e2 n2 at fn gc empty show ?thesis by blast
qed

theorem remove_node_cascades_witness:
  "atomic ab_db (remove_node (PStr ''A'')) [] =
     (Inr (), \<lparr>nodes = [(CText ''B'', Json (PDict [(''id'', PStr ''B'')]))], edges = []\<rparr>, []) \<and>
   fst (atomic \<lparr>nodes = [(CText ''B'', Json (PDict [(''id'', PStr ''B'')]))], edges = []\<rparr>
          (find_node (PStr ''B'')) []) = Inr (PDict [(''id'', PStr ''B'')]) \<and>
   fst (atomic ab_db (get_connections (PStr ''B'')) []) =
     Inr [(CText ''A'', CText ''B'', Json (PDict []))] \<and>
   fst (atomic \<lparr>nodes = [(CText ''B'', Json (PDict [(''id'', PStr ''B'')]))], edges = []\<rparr>
          (get_connections (PStr ''B'')) []) = Inr []"
proof -
  have a: "is_identifier (PStr ''A'')" and b: "is_identifier (PStr ''B'')"
    by (simp_all add: is_identifier_def)
  have ab: "PStr ''A'' \<noteq> PStr ''B''" by simp
  have p: "sql_bind (PStr ''A'') = Inr (CText ''A'')" and q: "sql_bind (PStr ''B'') = Inr (CText ''B'')"
    by simp_all
  have d: "delete_node_sql (CText ''A'') (delete_edge_sql (CText ''A'') (CText ''A'') ab_db) =
      \<lparr>nodes = [(CText ''B'', Json (PDict [(''id'', PStr ''B'')]))], edges = []\<rparr>"
    by (simp add: ab_db_def delete_node_sql_def delete_edge_sql_def edge_touches_def sql_eq_def)
  have before: "fst (atomic ab_db (find_node (PStr ''B'')) []) = Inr (PDict [(''id'', PStr ''B'')])"
    "fst (atomic ab_db (get_connections (PStr ''B'')) []) =
     Inr [(CText ''A'', CText ''B'', Json (PDict []))]"
    by (simp_all add: atomic_eq find_node_def get_connections_def select_node_sql_def
        search_edges_sql_def ab_db_def sql_eq_def edge_touches_def)
  have only: "\<forall>e \<in> set (edges ab_db). edge_touches (CText ''B'') (CText ''B'') e \<longrightarrow>
      edge_touches (CText ''A'') (CText ''A'') e"
    by (simp add: ab_db_def edge_touches_def sql_eq_def)
  note th = remove_node_cascades[OF a b ab p q, of ab_db "[]", unfolded d]
  from th have 1: "atomic ab_db (remove_node (PStr ''A'')) [] =
     (Inr (), \<lparr>nodes = [(CText ''B'', Json (PDict [(''id'', PStr ''B'')]))], edges = []\<rparr>, [])"
    by blast
  from th have 2: "fst (atomic \<lparr>nodes = [(CText ''B'', Json (PDict [(''id'', PStr ''B'')]))], edges = []\<rparr>
          (find_node (PStr ''B'')) []) = fst (atomic ab_db (find_node (PStr ''B'')) [])"
    by blast
  from th only have 3: "fst (atomic \<lparr>nodes = [(CText ''B'', Json (PDict [(''id'', PStr ''B'')]))], edges = []\<rparr>
          (get_connections (PStr ''B'')) []) = Inr []"
    by blast
  from 1 2 3 before show ?thesis by simp
qed

subsection \<open>Similarity search of nodes\<close>

lemma py_slice_to_nonneg: "0 \<le> n \<Longrightarrow> py_slice_to n xs = take (nat n) xs"
  by (simp add: py_slice_to_def)

text \<open>
  Claim C6. With the query text embedded: when the scan yields no row the result is
  \<open>None\<close>. When it yields rows and a threshold is given, the result is the list of the rows
  whose distance is strictly less than the threshold, cut by \<open>[:limit]\<close>; no row at a
  distance equal to or greater than the threshold is in the filtered list, and for a limit
  that is not negative the cut keeps its first \<open>limit\<close> rows. When every row fails the
  threshold the result is the empty list, which is not \<open>None\<close>.
\<close>

theorem vector_search_node_threshold:
  fixes t t' :: "'d::linorder"
  assumes emb: "get_embedding data = Inr v"
  shows "(scan v limit sort_by descending db0 = [] \<longrightarrow>
            vector_search_node get_embedding scan db0 data threshold descending limit sort_by h =
              (Inr None, db0, h)) \<and>
         (scan v limit sort_by descending db \<noteq> [] \<longrightarrow>
            vector_search_node get_embedding scan db data (Some t) descending limit sort_by h =
              (Inr (Some (py_slice_to limit
                 (filter (\<lambda>node. distance node < t) (scan v limit sort_by descending db)))), db, h) \<and>
            (\<forall>node \<in> set (scan v limit sort_by descending db). t \<le> distance node \<longrightarrow>
               node \<notin> set (filter (\<lambda>node. distance node < t) (scan v limit sort_by descending db))) \<and>
            (0 \<le> limit \<longrightarrow>
               py_slice_to limit (filter (\<lambda>node. distance node < t) (scan v limit sort_by descending db)) =
               take (nat limit) (filter (\<lambda>node. distance node < t) (scan v limit sort_by descending db)))) \<and>
         (scan v limit sort_by descending db \<noteq> [] \<and>
          (\<forall>node \<in> set (scan v limit sort_by descending db). \<not> distance node < t') \<longrightarrow>
            vector_search_node get_embedding scan db data (Some t') descending limit sort_by h =
              (Inr (Some []), db, h) \<and>
            vector_search_node get_embedding scan db data (Some t') descending limit sort_by h \<noteq>
              (Inr None, db, h))"
proof (intro conjI impI)
  assume "scan v limit sort_by descending db0 = []"
  then show "vector_search_node get_embedding scan db0 data threshold descending limit sort_by h =
              (Inr None, db0, h)"
    by (simp add: vector_search_node_def db_atomic_def connect_def commit_def search_node'_def emb)
next
  assume "scan v limit sort_by descending db \<noteq> []"
  then show "vector_search_node get_embedding scan db data (Some t) descending limit sort_by h =
              (Inr (Some (py_slice_to limit
                 (filter (\<lambda>node. distance node < t) (scan v limit sort_by descending db)))), db, h)"
    by (simp add: vector_search_node_def db_atomic_def connect_def commit_def search_node'_def emb)
next
  show "\<forall>node \<in> set (scan v limit sort_by descending db). t \<le> distance node \<longrightarrow>
               node \<notin> set (filter (\<lambda>node. distance node < t) (scan v limit sort_by descending db))"
    by auto
next
  assume "0 \<le> limit"
  then show "py_slice_to limit (filter (\<lambda>node. distance node < t) (scan v limit sort_by descending db)) =
               take (nat limit) (filter (\<lambda>node. distance node < t) (scan v limit sort_by descending db))"
    by (rule py_slice_to_nonneg)
next
  assume a: "scan v limit sort_by descending db \<noteq> [] \<and>
          (\<forall>node \<in> set (scan v limit sort_by descending db). \<not> distance node < t')"
  then have f: "filter (\<lambda>node. distance node < t') (scan v limit sort_by descending db) = []"
    by (simp add: filter_empty_conv)
  from a show "vector_search_node get_embedding scan db data (Some t') descending limit sort_by h =
              (Inr (Some []), db, h)"
    by (simp add: vector_search_node_def db_atomic_def connect_def commit_def search_node'_def emb f py_slice_to_def)
  then show "vector_search_node get_embedding scan db data (Some t') descending limit sort_by h \<noteq>
              (Inr None, db, h)"
    by simp
qed


theorem vector_search_node_threshold_witness:
  "vector_search_node example_embedding example_scan empty_vss ''q'' (Some 5) False 2 ''distance'' [] =
     (Inr None, empty_vss, []) \<and>
   vector_search_node example_embedding example_scan example_vss ''q'' (Some 5) False 2 ''distance'' [] =
     (Inr (Some [\<lparr>columns = [CInt 1], distance = 1\<rparr>, \<lparr>columns = [CInt 2], distance = 4\<rparr>]),
      example_vss, []) \<and>
   vector_search_node example_embedding example_scan example_vss ''q'' (Some 1) False 2 ''distance'' [] =
     (Inr (Some []), example_vss, [])"
proof -
  have emb: "example_embedding ''q'' = Inr ()" by (simp add: example_embedding_def)
  have none: "example_scan () 2 ''distance'' False empty_vss = []"
    by (simp add: example_scan_def empty_vss_def)
  have some: "example_scan () 2 ''distance'' False example_vss = example_hits"
    by (simp add: example_scan_def example_vss_def)
  have ne: "example_hits \<noteq> []" by (simp add: example_hits_def)
  have fail: "\<forall>node \<in> set example_hits. \<not> distance node < 1"
    by (simp add: example_hits_def)
  have lim: "(0::int) \<le> 2" by simp
  have flt: "take (nat 2) (filter (\<lambda>node. distance node < 5) example_hits) =
      [\<lparr>columns = [CInt 1], distance = 1\<rparr>, \<lparr>columns = [CInt 2], distance = 4\<rparr>]"
    by (simp add: example_hits_def)
  note th = vector_search_node_threshold[where get_embedding = example_embedding and data = "''q''"
      and v = "()" and scan = example_scan and limit = 2
      and sort_by = "''distance''" and descending = False and ?db0.0 = empty_vss
      and threshold = "Some 5" and h = "[]" and db = example_vss and t = 5 and t' = 1,
      OF emb, unfolded none some]
  from th have 1: "vector_search_node example_embedding example_scan empty_vss ''q'' (Some 5) False 2 ''distance'' [] =
     (Inr None, empty_vss, [])" by blast
  from th ne lim have 2: "vector_search_node example_embedding example_scan example_vss ''q'' (Some 5) False 2 ''distance'' [] =
     (Inr (Some (take (nat 2) (filter (\<lambda>node. distance node < 5) example_hits))), example_vss, [])"
    by simp
  from th ne fail have 3: "vector_search_node example_embedding example_scan example_vss ''q'' (Some 1) False 2 ''distance'' [] =
     (Inr (Some []), example_vss, [])" by blast
  from 1 2 3 show ?thesis unfolding flt by simp
qed

subsection \<open>Traversal without bodies\<close>

text \<open>
  What the loop computes when the bodies are not asked for: the identifiers of the rows in
  the order of their first occurrence, up to and including the first one that is the text
  \<open>json.dumps(tgt)\<close>. It raises nothing and the path has no duplicates.
\<close>

lemma traverse_loop_path:
  assumes "distinct acc" and "CText target \<notin> set acc"
  shows "traverse_loop target False rows (map Ident acc) =
           Inr (map Ident (acc @ filter (\<lambda>x. x \<notin> set acc)
                                   (first_seen (up_to (CText target) (row_identifiers rows)))))"
  using assms
proof (induction rows arbitrary: acc)
  case Nil
  then show ?case by (simp add: row_identifiers_def)
next
  case (Cons row rows)
  show ?case
  proof (cases "row = []")
    case True
    with Cons.IH[OF Cons.prems] show ?thesis by (simp add: row_identifiers_def)
  next
    case ne: False
    have ids: "row_identifiers (row # rows) = hd row # row_identifiers rows"
      using ne by (simp add: row_identifiers_def)
    have mem: "Ident (hd row) \<in> set (map Ident acc) \<longleftrightarrow> hd row \<in> set acc"
      by auto
    show ?thesis
    proof (cases "hd row \<in> set acc")
      case True
      with Cons.prems have nt: "hd row \<noteq> CText target" by auto
      have step: "traverse_loop target False (row # rows) (map Ident acc) =
            traverse_loop target False rows (map Ident acc)"
        using ne True mem by simp
      have rhs: "filter (\<lambda>x. x \<notin> set acc)
             (first_seen (up_to (CText target) (row_identifiers (row # rows)))) =
           filter (\<lambda>x. x \<notin> set acc) (first_seen (up_to (CText target) (row_identifiers rows)))"
        using True nt by (auto simp: ids intro!: filter_cong)
      show ?thesis
        by (simp only: step rhs Cons.IH[OF Cons.prems])
    next
      case new: False
      show ?thesis
      proof (cases "hd row = CText target")
        case True
        have step: "traverse_loop target False (row # rows) (map Ident acc) =
            Inr (map Ident (acc @ [hd row]))"
          using ne new True mem by simp
        have rhs: "filter (\<lambda>x. x \<notin> set acc)
             (first_seen (up_to (CText target) (row_identifiers (row # rows)))) = [hd row]"
          using new True by (simp add: ids)
        show ?thesis by (simp only: step rhs)
      next
        case nt: False
        have d: "distinct (acc @ [hd row])" using Cons.prems new by simp
        have t: "CText target \<notin> set (acc @ [hd row])" using Cons.prems nt by auto
        have step: "traverse_loop target False (row # rows) (map Ident acc) =
              traverse_loop target False rows (map Ident (acc @ [hd row]))"
          using ne new nt mem by simp
        have rhs: "acc @ filter (\<lambda>x. x \<notin> set acc)
             (first_seen (up_to (CText target) (row_identifiers (row # rows)))) =
           (acc @ [hd row]) @ filter (\<lambda>x. x \<notin> set (acc @ [hd row]))
             (first_seen (up_to (CText target) (row_identifiers rows)))"
          using new nt by (auto simp: ids intro!: filter_cong)
        show ?thesis
          by (simp only: step rhs Cons.IH[OF d t])
      qed
    qed
  qed
qed

lemma traverse_without_bodies_path:
  assumes tgt: "json_ok tgt" and src: "sql_bind src = Inr p"
  shows "traverse run_query db src tgt neighbors_fn False h =
           (Inr (map Ident (first_seen (up_to (CText (render tgt))
                    (row_identifiers (run_query (neighbors_fn False) p db))))), db, h)"
  using traverse_loop_path[of "[]" "render tgt" "run_query (neighbors_fn False) p db"] tgt src
  by (simp add: traverse_def atomic_eq json_dumps_def)

lemma distinct_first_seen: "distinct (first_seen xs)"
  by (induction xs) auto

lemma set_first_seen: "set (first_seen xs) = set xs"
  by (induction xs) auto

text \<open>
  Claim C3. The claim has the traversal stop as soon as the appended identifier equals the
  target, and return the full one-hop frontier when the target is not among the adjacency
  rows. The code compares the identifier with the string \<open>json.dumps(tgt)\<close> instead. The
  source \<open>A\<close> has the adjacency rows \<open>B\<close> and \<open>C\<close>: with the target \<open>B\<close> the loop appends \<open>B\<close>,
  compares it with the quoted text of \<open>json.dumps("B")\<close>, does not stop, and returns \<open>B\<close> and
  \<open>C\<close>. The source \<open>N\<close> has the adjacency rows \<open>null\<close> and \<open>C\<close>: with no target (\<open>None\<close>)
  the loop stops at the node whose identifier is the text \<open>null\<close> and leaves \<open>C\<close> out.
\<close>

theorem traverse_target_not_recognised:
  "traverse example_adjacency empty_db (PStr ''A'') (PStr ''B'') find_neighbors False [] =
     (Inr [Ident (CText ''B''), Ident (CText ''C'')], empty_db, []) \<and>
   traverse example_adjacency empty_db (PStr ''N'') PNone find_neighbors False [] =
     (Inr [Ident (CText ''null'')], empty_db, [])"
  by (simp add: traverse_def atomic_eq json_dumps_def example_adjacency_def json_quote_def
      escape_char_def)

subsection \<open>Deleting embeddings\<close>

lemma delete_embedding_sql_int:
  "delete_embedding_sql (CInt k) rows = filter (\<lambda>row. fst row \<noteq> k) rows"
  by (simp add: delete_embedding_sql_def sql_eq_def)

lemma filter_absent: "\<forall>x \<in> set xs. P x \<Longrightarrow> filter P xs = xs"
  by (induction xs) auto

lemma remove_edge_loop_rows:
  "remove_edge_loop (map (\<lambda>kr. PList (PInt (fst kr) # snd kr)) krs) c h =
     (Inr (),
      c\<lparr>view := (view c)\<lparr>relationship_embedding :=
           filter (\<lambda>row. fst row \<notin> fst ` set krs) (relationship_embedding (view c))\<rparr>\<rparr>,
      h)"
proof (induction krs arbitrary: c)
  case Nil
  then show ?case by simp
next
  case (Cons kr krs)
  have "filter (\<lambda>row. fst row \<notin> fst ` set krs) (filter (\<lambda>row. fst row \<noteq> fst kr) rows) =
        filter (\<lambda>row. fst row \<notin> fst ` set (kr # krs)) rows" for rows :: "(int \<times> 'a) list"
    by (induction rows) auto
  then show ?case
    by (simp add: Cons.IH delete_embedding_sql_int)
qed

text \<open>
  Claim C9, as the code has it. \<open>delete_node_embedding\<close> takes a row and removes the
  embedding rows whose identifier is the row's first column; \<open>delete_edge_embedding\<close>
  takes a sequence of such rows and removes the rows of each. Both return normally, and
  leave the tables as they were when no such embedding row exists. Called with a bare
  integer, the unit of work of \<open>delete_node_embedding\<close> raises \<open>TypeError\<close> at \<open>id[0]\<close> and
  that of \<open>delete_edge_embedding\<close> raises \<open>TypeError\<close> at the iteration over \<open>ids\<close>; both
  calls fail and remove nothing.
\<close>

theorem delete_embedding_by_row:
  "delete_node_embedding db (PList (PInt k # rest)) h =
     (Inr (), db\<lparr>nodes_embedding := filter (\<lambda>row. fst row \<noteq> k) (nodes_embedding db)\<rparr>, h) \<and>
   (k \<notin> fst ` set (nodes_embedding db) \<longrightarrow>
      delete_node_embedding db (PList (PInt k # rest)) h = (Inr (), db, h)) \<and>
   delete_edge_embedding db (PList (map (\<lambda>kr. PList (PInt (fst kr) # snd kr)) krs)) h =
     (Inr (), db\<lparr>relationship_embedding :=
                  filter (\<lambda>row. fst row \<notin> fst ` set krs) (relationship_embedding db)\<rparr>, h) \<and>
   (fst ` set krs \<inter> fst ` set (relationship_embedding db) = {} \<longrightarrow>
      delete_edge_embedding db (PList (map (\<lambda>kr. PList (PInt (fst kr) # snd kr)) krs)) h =
        (Inr (), db, h)) \<and>
   vss_remove_node' (PInt j) c h = (Inl TypeError, c, h) \<and>
   vss_remove_edge' (PInt j) c h = (Inl TypeError, c, h) \<and>
   isl (fst (delete_node_embedding db (PInt j) h)) \<and>
   fst (snd (delete_node_embedding db (PInt j) h)) = db \<and>
   isl (fst (delete_edge_embedding db (PInt j) h)) \<and>
   fst (snd (delete_edge_embedding db (PInt j) h)) = db"
proof -
  have un: "vss_remove_node' (PInt j) c h = (Inl TypeError, c, h)"
    by (simp add: vss_remove_node'_def)
  have ue: "vss_remove_edge' (PInt j) c h = (Inl TypeError, c, h)"
    by (simp add: vss_remove_edge'_def)
  have rn: "isl (fst (delete_node_embedding db (PInt j) h)) \<and>
      fst (snd (delete_node_embedding db (PInt j) h)) = db"
    by (simp add: delete_node_embedding_def db_atomic_def connect_def vss_remove_node'_def)
  have re: "isl (fst (delete_edge_embedding db (PInt j) h)) \<and>
      fst (snd (delete_edge_embedding db (PInt j) h)) = db"
    by (simp add: delete_edge_embedding_def db_atomic_def connect_def vss_remove_edge'_def)
  have n: "delete_node_embedding db (PList (PInt k # rest)) h =
     (Inr (), db\<lparr>nodes_embedding := filter (\<lambda>row. fst row \<noteq> k) (nodes_embedding db)\<rparr>, h)"
    by (simp add: delete_node_embedding_def db_atomic_def connect_def commit_def vss_remove_node'_def
        delete_embedding_sql_int)
  have n0: "delete_node_embedding db (PList (PInt k # rest)) h = (Inr (), db, h)"
    if "k \<notin> fst ` set (nodes_embedding db)"
  proof -
    from that have "filter (\<lambda>row. fst row \<noteq> k) (nodes_embedding db) = nodes_embedding db"
      by (intro filter_absent) auto
    with n show ?thesis by simp
  qed
  have e: "delete_edge_embedding db (PList (map (\<lambda>kr. PList (PInt (fst kr) # snd kr)) krs)) h =
     (Inr (), db\<lparr>relationship_embedding :=
                  filter (\<lambda>row. fst row \<notin> fst ` set krs) (relationship_embedding db)\<rparr>, h)"
    by (simp add: delete_edge_embedding_def db_atomic_def connect_def commit_def vss_remove_edge'_def
        remove_edge_loop_rows)
  have e0: "delete_edge_embedding db (PList (map (\<lambda>kr. PList (PInt (fst kr) # snd kr)) krs)) h =
        (Inr (), db, h)"
    if "fst ` set krs \<inter> fst ` set (relationship_embedding db) = {}"
  proof -
    from that have "filter (\<lambda>row. fst row \<notin> fst ` set krs) (relationship_embedding db) =
        relationship_embedding db"
      by (intro filter_absent) auto
    with e show ?thesis by simp
  qed
  from n n0 e e0 un ue rn re show ?thesis by blast
qed

theorem delete_embedding_by_row_witness:
  "delete_node_embedding example_vss (PList [PInt 2]) [] =
     (Inr (), \<lparr>nodes_embedding = [(1, ()), (3, ())], relationship_embedding = []\<rparr>, []) \<and>
   delete_node_embedding example_vss (PList [PInt 7]) [] = (Inr (), example_vss, []) \<and>
   delete_edge_embedding example_vss (PList [PList [PInt 1], PList [PInt 2]]) [] =
     (Inr (), example_vss, [])"
proof -
  have absent: "(7::int) \<notin> fst ` set (nodes_embedding example_vss)"
    by (simp add: example_vss_def)
  have none: "fst ` set [(1::int, []), (2, [])] \<inter> fst ` set (relationship_embedding example_vss) = {}"
    by (simp add: example_vss_def)
  have rows: "map (\<lambda>kr. PList (PInt (fst kr) # snd kr)) [(1, []), (2, [])] =
      [PList [PInt 1], PList [PInt 2]]" by simp
  have del: "example_vss\<lparr>nodes_embedding := filter (\<lambda>row. fst row \<noteq> 2) (nodes_embedding example_vss)\<rparr> =
      \<lparr>nodes_embedding = [(1, ()), (3, ())], relationship_embedding = []\<rparr>"
    by (simp add: example_vss_def)
  from delete_embedding_by_row[of example_vss 2 "[]" "[]"]
  have 1: "delete_node_embedding example_vss (PList [PInt 2]) [] =
     (Inr (), \<lparr>nodes_embedding = [(1, ()), (3, ())], relationship_embedding = []\<rparr>, [])"
    unfolding del by blast
  from delete_embedding_by_row[of example_vss 7 "[]" "[]"] absent
  have 2: "delete_node_embedding example_vss (PList [PInt 7]) [] = (Inr (), example_vss, [])"
    by blast
  from delete_embedding_by_row[of example_vss _ _ "[]" "[(1, []), (2, [])]"] none
  have 3: "delete_edge_embedding example_vss (PList [PList [PInt 1], PList [PInt 2]]) [] =
     (Inr (), example_vss, [])"
    unfolding rows by blast
  from 1 2 3 show ?thesis by blast
qed

text \<open>
  Called with the identifier itself, the integer 2, the unit of work of
  \<open>delete_node_embedding\<close> raises \<open>TypeError\<close> at \<open>id[0]\<close>; the call fails and the embedding
  row of that identifier stays.
\<close>

theorem delete_node_embedding_by_identifier_raises:
  "vss_remove_node' (PInt 2) (connect example_vss) [] = (Inl TypeError, connect example_vss, []) \<and>
   isl (fst (delete_node_embedding example_vss (PInt 2) [])) \<and>
   fst (snd (delete_node_embedding example_vss (PInt 2) [])) = example_vss \<and>
   (2, ()) \<in> set (nodes_embedding example_vss)"
  by (simp add: delete_node_embedding_def db_atomic_def connect_def vss_remove_node'_def
      example_vss_def)

subsection \<open>The id of every stored body mirrors the id of its row\<close>

lemma insert_node_sql_mirrored:
  "id_mirrored db \<Longrightarrow> insert_node_sql body db = Inr db' \<Longrightarrow> id_mirrored db'"
  by (auto simp: id_mirrored_def insert_node_sql_def split: if_splits)

lemma update_node_sql_mirrored:
  "id_mirrored db \<Longrightarrow> p = CNull \<or> json_id body = p \<Longrightarrow> id_mirrored (update_node_sql body p db)"
  by (auto simp: id_mirrored_def update_node_sql_def sql_eq_def)

lemma insert_node'_mirrored:
  "id_mirrored cursor \<Longrightarrow> insert_node' identifier data cursor h = (r, c', h') \<Longrightarrow> id_mirrored c'"
  by (auto simp: insert_node'_def Let_def split: sum.splits dest: insert_node_sql_mirrored)

lemma bound_id_mirrors:
  "sql_bind identifier = Inr p \<Longrightarrow> identifier \<noteq> PNone \<Longrightarrow>
   json_id (Json (PDict (dict_set ''id'' identifier d))) = p"
  by (cases "identifier") (auto simp: json_id_def map_of_dict_set)

lemma upsert_node'_mirrored:
  assumes inv: "id_mirrored cursor"
    and run: "upsert_node' identifier data cursor h = (r, c', h')"
  shows "id_mirrored c'"
proof (cases "sql_bind identifier")
  case (Inl e)
  with run inv show ?thesis by (simp add: upsert_node'_def find_node_def)
next
  case (Inr p)
  show ?thesis
  proof (cases "select_node_sql p cursor")
    case Nil
    with run Inr have "insert_node' identifier data cursor h = (r, c', h')"
      by (simp add: upsert_node'_def find_node_def)
    with inv show ?thesis by (rule insert_node'_mirrored)
  next
    case (Cons body others)
    show ?thesis
    proof (cases "py_truthy (json_loads body)")
      case False
      with run Inr Cons have "insert_node' identifier data cursor h = (r, c', h')"
        by (simp add: upsert_node'_def find_node_def)
      with inv show ?thesis by (rule insert_node'_mirrored)
    next
      case True
      show ?thesis
      proof (cases "json_loads body")
        case (PDict current)
        let ?u = "length h"
        let ?h1 = "h @ [dict_merge current (h ! data)]"
        let ?h2 = "set_id' identifier ?u ?h1"
        have stored: "identifier \<noteq> PNone \<Longrightarrow>
            ?h2 ! ?u = dict_set ''id'' identifier (dict_merge current (h ! data))"
          by (simp add: set_id'_def)
        show ?thesis
        proof (cases "json_dumps (PDict (?h2 ! ?u))")
          case (Inl e)
          with run Inr Cons True PDict inv show ?thesis
            by (simp add: upsert_node'_def find_node_def alloc_def)
        next
          case dumped: (Inr new_body)
          with run Inr Cons True PDict have c': "c' = update_node_sql new_body p cursor"
            by (simp add: upsert_node'_def find_node_def alloc_def)
          have "p = CNull \<or> json_id new_body = p"
          proof (cases "identifier = PNone")
            case True
            with Inr show ?thesis by simp
          next
            case False
            from dumped have "new_body = Json (PDict (?h2 ! ?u))"
              by (simp add: json_dumps_def split: if_splits)
            with stored[OF False] bound_id_mirrors[OF Inr False] show ?thesis by simp
          qed
          with inv c' show ?thesis by (simp add: update_node_sql_mirrored)
        qed
      qed (use run Inr Cons True inv in \<open>simp_all add: upsert_node'_def find_node_def\<close>)
    qed
  qed
qed

lemma executemany_insert_mirrored:
  "id_mirrored cursor \<Longrightarrow> executemany_insert bodies cursor = (r, c') \<Longrightarrow> id_mirrored c'"
  by (induction bodies arbitrary: cursor)
     (auto split: sum.splits dest: insert_node_sql_mirrored)

lemma upsert_loop_mirrored:
  "id_mirrored cursor \<Longrightarrow> upsert_loop zs cursor h = (r, c', h') \<Longrightarrow> id_mirrored c'"
proof (induction zs arbitrary: cursor h)
  case Nil
  then show ?case by simp
next
  case (Cons z zs)
  obtain r1 c1 h1 where step: "upsert_node' (fst z) (snd z) cursor h = (r1, c1, h1)"
    by (cases "upsert_node' (fst z) (snd z) cursor h") auto
  from upsert_node'_mirrored[OF Cons.prems(1) step] have inv1: "id_mirrored c1" .
  show ?case
  proof (cases r1)
    case (Inl e)
    with Cons.prems(2) step inv1 show ?thesis by simp
  next
    case (Inr u)
    with Cons.prems(2) step have "upsert_loop zs c1 h1 = (r, c', h')" by simp
    from Cons.IH[OF inv1 this] show ?thesis .
  qed
qed

lemma atomic_mirrored:
  assumes inv: "id_mirrored db"
    and unit: "\<And>r c' h'. fn db h = (r, c', h') \<Longrightarrow> id_mirrored c'"
  shows "id_mirrored (fst (snd (atomic db fn h)))"
proof -
  obtain r c' h' where run: "fn db h = (r, c', h')" by (cases "fn db h") auto
  from unit[OF run] inv run show ?thesis
    by (cases r) (simp_all add: atomic_eq)
qed

subsection \<open>Upsert\<close>

lemma map_of_fold_dict_set:
  "map_of (fold (\<lambda>kv d. dict_set (fst kv) (snd kv) d) b a) = map_of a ++ map_of (rev b)"
proof (induction b arbitrary: a)
  case Nil
  then show ?case by simp
next
  case (Cons kv b)
  have split: "map_of a ++ map_of (rev b @ [kv]) = (map_of a)(fst kv \<mapsto> snd kv) ++ map_of (rev b)"
  proof (rule ext)
    fix x
    show "(map_of a ++ map_of (rev b @ [kv])) x = ((map_of a)(fst kv \<mapsto> snd kv) ++ map_of (rev b)) x"
      by (cases kv) (auto simp: map_add_def split: option.splits)
  qed
  have "map_of (fold (\<lambda>kv d. dict_set (fst kv) (snd kv) d) (kv # b) a) =
        map_of (dict_set (fst kv) (snd kv) a) ++ map_of (rev b)"
    by (simp add: Cons.IH)
  also have "\<dots> = (map_of a)(fst kv \<mapsto> snd kv) ++ map_of (rev b)"
    by (simp only: map_of_dict_set)
  also have "\<dots> = map_of a ++ map_of (rev (kv # b))"
    using split by (simp only: rev.simps)
  finally show ?case .
qed

lemma map_of_rev_distinct: "distinct (map fst l) \<Longrightarrow> map_of (rev l) = map_of l"
proof (induction l)
  case Nil
  then show ?case by simp
next
  case (Cons kv l)
  then have ih: "map_of (rev l) = map_of l" and fresh: "map_of l (fst kv) = None"
    by (simp_all add: map_of_eq_None_iff)
  show ?case
  proof (rule ext)
    fix x
    show "map_of (rev (kv # l)) x = map_of (kv # l) x"
      using fresh by (cases kv) (auto simp: ih map_add_def split: option.splits)
  qed
qed

lemma map_of_dict_merge:
  "distinct (map fst b) \<Longrightarrow> map_of (dict_merge a b) = map_of a ++ map_of b"
  by (simp add: dict_merge_def map_of_fold_dict_set map_of_rev_distinct)

lemma is_identifier_not_None: "is_identifier v \<Longrightarrow> v \<noteq> PNone"
  by (auto simp: is_identifier_def)

lemma upsert_absent:
  "sql_bind identifier = Inr p \<Longrightarrow> select_node_sql p cursor = [] \<Longrightarrow>
   upsert_node' identifier data cursor h = insert_node' identifier data cursor h"
  by (simp add: upsert_node'_def find_node_def)

lemma upsert_existing:
  assumes bind: "sql_bind identifier = Inr p" and nn: "identifier \<noteq> PNone"
    and found: "select_node_sql p cursor = Json (PDict old) # others" and ne: "old \<noteq> []"
  shows "upsert_node' identifier data cursor h =
           (if json_ok (PDict (dict_set ''id'' identifier (dict_merge old (h ! data))))
            then (Inr (), update_node_sql (Json (PDict (dict_set ''id'' identifier (dict_merge old (h ! data))))) p cursor,
                  h @ [dict_set ''id'' identifier (dict_merge old (h ! data))])
            else (Inl TypeError, cursor, h @ [dict_set ''id'' identifier (dict_merge old (h ! data))]))"
  using bind nn found ne
  by (simp add: upsert_node'_def find_node_def alloc_def set_id'_def json_dumps_def Let_def
      del: json_ok.simps)

lemma select_update:
  "select_node_sql p (update_node_sql body p db) = map (\<lambda>b. body) (select_node_sql p db)"
proof -
  have "map snd (filter (\<lambda>row. sql_eq (fst row) p)
          (map (\<lambda>row. if sql_eq (fst row) p then (fst row, body) else row) rows)) =
        map (\<lambda>b. body) (map snd (filter (\<lambda>row. sql_eq (fst row) p) rows))"
    for rows :: "(cell \<times> json) list"
    by (induction rows) auto
  then show ?thesis by (simp add: select_node_sql_def update_node_sql_def)
qed

lemma select_empty_fresh:
  "p \<noteq> CNull \<Longrightarrow> select_node_sql p db = [] \<Longrightarrow> p \<notin> fst ` set (nodes db)"
  by (auto simp: select_node_sql_def filter_empty_conv sql_eq_def)

lemma is_identifier_json_ok: "is_identifier v \<Longrightarrow> json_ok v"
  by (cases v) (auto simp: is_identifier_def)

lemma upsert_scenario:
  assumes ident: "is_identifier identifier" and bind: "sql_bind identifier = Inr p"
    and absent: "select_node_sql p db = []"
  shows "\<exists>db1 h1 db2 h2 db3 h3 d2 d3.
           atomic db (upsert_node identifier 0) scenario_heap = (Inr (), db1, h1) \<and>
           atomic db1 (upsert_node identifier 1) h1 = (Inr (), db2, h2) \<and>
           atomic db2 (find_node identifier) h2 = (Inr (PDict d2), db2, h2) \<and>
           map_of d2 = map_of [(''id'', identifier), (''a'', PInt 1), (''b'', PInt 2)] \<and>
           atomic db2 (upsert_node identifier 2) h2 = (Inr (), db3, h3) \<and>
           atomic db3 (find_node identifier) h3 = (Inr (PDict d3), db3, h3) \<and>
           map_of d3 = map_of [(''id'', identifier), (''a'', PInt 3), (''b'', PInt 2)]"
proof -
  let ?b1 = "[(''a'', PInt 1), (''id'', identifier)]"
  let ?b2 = "[(''a'', PInt 1), (''id'', identifier), (''b'', PInt 2)]"
  let ?b3 = "[(''a'', PInt 3), (''id'', identifier), (''b'', PInt 2)]"
  let ?db1 = "db\<lparr>nodes := nodes db @ [(p, Json (PDict ?b1))]\<rparr>"
  let ?h1 = "[?b1, [(''b'', PInt 2)], [(''a'', PInt 3)]]"
  let ?db2 = "update_node_sql (Json (PDict ?b2)) p ?db1"
  let ?h2 = "?h1 @ [?b2]"
  let ?db3 = "update_node_sql (Json (PDict ?b3)) p ?db2"
  let ?h3 = "?h2 @ [?b3]"
  note nn = is_identifier_not_None[OF ident]
  note ok = is_identifier_json_ok[OF ident]
  from ident bind have pn: "p \<noteq> CNull" by (cases "identifier") (auto simp: is_identifier_def)
  have id1: "json_id (Json (PDict ?b1)) = p"
    using bound_id_mirrors[OF bind nn, of "[(''a'', PInt 1)]"] by simp
  have ins: "insert_node_sql (Json (PDict ?b1)) db = Inr ?db1"
    using select_empty_fresh[OF pn absent] pn by (simp add: insert_node_sql_def id1)
  have s1: "atomic db (upsert_node identifier 0) scenario_heap = (Inr (), ?db1, ?h1)"
    using nn ok
    by (simp add: atomic_eq upsert_node_def upsert_absent[OF bind absent] insert_node'_def
        set_id'_def scenario_heap_def json_dumps_def ins)
  have sel1: "select_node_sql p ?db1 = [Json (PDict ?b1)]"
    using insert_node_sql_select[OF ins] by (simp add: id1)
  have s2: "atomic ?db1 (upsert_node identifier 1) ?h1 = (Inr (), ?db2, ?h2)"
    using ok
    by (simp add: atomic_eq upsert_node_def upsert_existing[OF bind nn sel1] dict_merge_def)
  have sel2: "select_node_sql p ?db2 = [Json (PDict ?b2)]"
    by (simp add: select_update sel1)
  have f2: "atomic ?db2 (find_node identifier) ?h2 = (Inr (PDict ?b2), ?db2, ?h2)"
    by (simp add: atomic_eq find_node_def bind sel2)
  have m2: "map_of ?b2 = map_of [(''id'', identifier), (''a'', PInt 1), (''b'', PInt 2)]"
    by (auto simp: fun_eq_iff)
  have s3: "atomic ?db2 (upsert_node identifier 2) ?h2 = (Inr (), ?db3, ?h3)"
    using ok
    by (simp add: atomic_eq upsert_node_def upsert_existing[OF bind nn sel2] dict_merge_def)
  have sel3: "select_node_sql p ?db3 = [Json (PDict ?b3)]"
    by (simp add: select_update sel1)
  have f3: "atomic ?db3 (find_node identifier) ?h3 = (Inr (PDict ?b3), ?db3, ?h3)"
    by (simp add: atomic_eq find_node_def bind sel3)
  have m3: "map_of ?b3 = map_of [(''id'', identifier), (''a'', PInt 3), (''b'', PInt 2)]"
    by (auto simp: fun_eq_iff)
  from s1 s2 f2 m2 s3 f3 m3 show ?thesis by blast
qed

text \<open>
  Claim C2, as the code has it. \<open>upsert_node(id, data)\<close> looks the record up by \<open>id\<close>. When
  there is none it is \<open>add_node(data, id)\<close>. When there is one, \<open>find_node(id)\<close> afterwards
  returns the top-level merge: under every key other than \<open>"id"\<close> the value of \<open>data\<close> when
  \<open>data\<close> has the key (a nested object is taken whole) and the old value otherwise; under
  \<open>"id"\<close> the identifier. Starting without a record, the upserts of \<open>{"a": 1}\<close> and
  \<open>{"b": 2}\<close> give \<open>{"id": id, "a": 1, "b": 2}\<close>, and a further upsert of \<open>{"a": 3}\<close> gives
  \<open>{"id": id, "a": 3, "b": 2}\<close>.
\<close>

theorem upsert_node_merges:
  assumes ident: "is_identifier identifier" and bind: "sql_bind identifier = Inr p"
  shows "(select_node_sql p db = [] \<longrightarrow>
            atomic db (upsert_node identifier data) h = atomic db (add_node data identifier) h) \<and>
         (select_node_sql p db_with = Json (PDict old) # others \<and> old \<noteq> [] \<and>
          distinct (map fst (h ! data)) \<and>
          atomic db_with (upsert_node identifier data) h = (Inr u, db', h') \<longrightarrow>
            (\<exists>stored. atomic db' (find_node identifier) h' = (Inr (PDict stored), db', h') \<and>
               map_of stored ''id'' = Some identifier \<and>
               (\<forall>k. k \<noteq> ''id'' \<longrightarrow>
                  map_of stored k = (case map_of (h ! data) k of Some v \<Rightarrow> Some v | None \<Rightarrow> map_of old k)))) \<and>
         (select_node_sql p db = [] \<longrightarrow>
            (\<exists>db1 h1 db2 h2 db3 h3 d2 d3.
               atomic db (upsert_node identifier 0) scenario_heap = (Inr (), db1, h1) \<and>
               atomic db1 (upsert_node identifier 1) h1 = (Inr (), db2, h2) \<and>
               atomic db2 (find_node identifier) h2 = (Inr (PDict d2), db2, h2) \<and>
               map_of d2 = map_of [(''id'', identifier), (''a'', PInt 1), (''b'', PInt 2)] \<and>
               atomic db2 (upsert_node identifier 2) h2 = (Inr (), db3, h3) \<and>
               atomic db3 (find_node identifier) h3 = (Inr (PDict d3), db3, h3) \<and>
               map_of d3 = map_of [(''id'', identifier), (''a'', PInt 3), (''b'', PInt 2)]))"
proof (intro conjI impI)
  assume "select_node_sql p db = []"
  then show "atomic db (upsert_node identifier data) h = atomic db (add_node data identifier) h"
    by (simp add: atomic_eq upsert_node_def add_node_def upsert_absent[OF bind])
next
  assume a: "select_node_sql p db_with = Json (PDict old) # others \<and> old \<noteq> [] \<and>
          distinct (map fst (h ! data)) \<and>
          atomic db_with (upsert_node identifier data) h = (Inr u, db', h')"
  let ?stored = "dict_set ''id'' identifier (dict_merge old (h ! data))"
  from a have found: "select_node_sql p db_with = Json (PDict old) # others" and ne: "old \<noteq> []"
    and keys: "distinct (map fst (h ! data))"
    and run: "atomic db_with (upsert_node identifier data) h = (Inr u, db', h')" by simp_all
  note step = upsert_existing[OF bind is_identifier_not_None[OF ident] found ne, of data h]
  from run step have db': "db' = update_node_sql (Json (PDict ?stored)) p db_with"
    by (auto simp: atomic_eq upsert_node_def split: if_splits)
  have sel: "select_node_sql p db' = Json (PDict ?stored) # map (\<lambda>b. Json (PDict ?stored)) others"
    by (simp add: db' select_update found)
  have fn: "atomic db' (find_node identifier) h' = (Inr (PDict ?stored), db', h')"
    by (simp add: atomic_eq find_node_def bind sel)
  have idk: "map_of ?stored ''id'' = Some identifier"
    by (simp add: map_of_dict_set)
  have other: "map_of ?stored k = (case map_of (h ! data) k of Some v \<Rightarrow> Some v | None \<Rightarrow> map_of old k)"
    if "k \<noteq> ''id''" for k
    using that by (simp add: map_of_dict_set map_of_dict_merge[OF keys] map_add_def)
  from fn idk other
  show "\<exists>stored. atomic db' (find_node identifier) h' = (Inr (PDict stored), db', h') \<and>
               map_of stored ''id'' = Some identifier \<and>
               (\<forall>k. k \<noteq> ''id'' \<longrightarrow>
                  map_of stored k = (case map_of (h ! data) k of Some v \<Rightarrow> Some v | None \<Rightarrow> map_of old k))"
    by blast
next
  assume "select_node_sql p db = []"
  from upsert_scenario[OF ident bind this]
  show "\<exists>db1 h1 db2 h2 db3 h3 d2 d3.
               atomic db (upsert_node identifier 0) scenario_heap = (Inr (), db1, h1) \<and>
               atomic db1 (upsert_node identifier 1) h1 = (Inr (), db2, h2) \<and>
               atomic db2 (find_node identifier) h2 = (Inr (PDict d2), db2, h2) \<and>
               map_of d2 = map_of [(''id'', identifier), (''a'', PInt 1), (''b'', PInt 2)] \<and>
               atomic db2 (upsert_node identifier 2) h2 = (Inr (), db3, h3) \<and>
               atomic db3 (find_node identifier) h3 = (Inr (PDict d3), db3, h3) \<and>
               map_of d3 = map_of [(''id'', identifier), (''a'', PInt 3), (''b'', PInt 2)]" .
qed


theorem upsert_node_merges_witness:
  "atomic empty_db (upsert_node (PStr ''A'') 0) [[(''x'', PInt 1)]] =
     atomic empty_db (add_node 0 (PStr ''A'')) [[(''x'', PInt 1)]] \<and>
   atomic ab_db (upsert_node (PStr ''A'') 0) [[(''x'', PInt 1)]] =
     (Inr (), ab_db_x, [[(''x'', PInt 1)], [(''id'', PStr ''A''), (''x'', PInt 1)]]) \<and>
   (\<exists>stored. atomic ab_db_x (find_node (PStr ''A'')) [[(''x'', PInt 1)], [(''id'', PStr ''A''), (''x'', PInt 1)]] =
        (Inr (PDict stored), ab_db_x, [[(''x'', PInt 1)], [(''id'', PStr ''A''), (''x'', PInt 1)]]) \<and>
      map_of stored ''id'' = Some (PStr ''A'') \<and> map_of stored ''x'' = Some (PInt 1)) \<and>
   (\<exists>db1 h1 db2 h2 db3 h3 d2 d3.
      atomic empty_db (upsert_node (PStr ''A'') 0) scenario_heap = (Inr (), db1, h1) \<and>
      atomic db1 (upsert_node (PStr ''A'') 1) h1 = (Inr (), db2, h2) \<and>
      atomic db2 (find_node (PStr ''A'')) h2 = (Inr (PDict d2), db2, h2) \<and>
      map_of d2 = map_of [(''id'', PStr ''A''), (''a'', PInt 1), (''b'', PInt 2)] \<and>
      atomic db2 (upsert_node (PStr ''A'') 2) h2 = (Inr (), db3, h3) \<and>
      atomic db3 (find_node (PStr ''A'')) h3 = (Inr (PDict d3), db3, h3) \<and>
      map_of d3 = map_of [(''id'', PStr ''A''), (''a'', PInt 3), (''b'', PInt 2)])"
proof -
  let ?h = "[[(''x'', PInt 1)]]"
  let ?h' = "[[(''x'', PInt 1)], [(''id'', PStr ''A''), (''x'', PInt 1)]]"
  have ident: "is_identifier (PStr ''A'')" by (simp add: is_identifier_def)
  have bind: "sql_bind (PStr ''A'') = Inr (CText ''A'')" by simp
  have absent: "select_node_sql (CText ''A'') empty_db = []"
    by (simp add: select_node_sql_def empty_db_def)
  have found: "select_node_sql (CText ''A'') ab_db = Json (PDict [(''id'', PStr ''A'')]) # []"
    by (simp add: select_node_sql_def ab_db_def sql_eq_def)
  have ne: "[(''id'', PStr ''A'')] \<noteq> []" by simp
  have keys: "distinct (map fst (?h ! 0))" by simp
  have upd: "update_node_sql (Json (PDict [(''id'', PStr ''A''), (''x'', PInt 1)])) (CText ''A'') ab_db =
      ab_db_x"
    by (simp add: update_node_sql_def ab_db_def ab_db_x_def sql_eq_def)
  have "upsert_node' (PStr ''A'') 0 ab_db ?h = (Inr (), ab_db_x, ?h')"
    using upsert_existing[OF bind _ found ne, of 0 ?h] by (simp add: dict_merge_def upd)
  then have run: "atomic ab_db (upsert_node (PStr ''A'') 0) ?h = (Inr (), ab_db_x, ?h')"
    by (simp add: atomic_eq upsert_node_def)
  note th = upsert_node_merges[OF ident bind, where db = empty_db and data = 0 and h = ?h
      and db_with = ab_db and old = "[(''id'', PStr ''A'')]" and others = "[]" and u = "()"
      and db' = ab_db_x and h' = ?h']
  from th absent have 1: "atomic empty_db (upsert_node (PStr ''A'') 0) ?h =
     atomic empty_db (add_node 0 (PStr ''A'')) ?h" by blast
  from th found ne keys run obtain stored where
    st: "atomic ab_db_x (find_node (PStr ''A'')) ?h' = (Inr (PDict stored), ab_db_x, ?h')"
      "map_of stored ''id'' = Some (PStr ''A'')"
      "\<forall>k. k \<noteq> ''id'' \<longrightarrow> map_of stored k =
          (case map_of (?h ! 0) k of Some v \<Rightarrow> Some v | None \<Rightarrow> map_of [(''id'', PStr ''A'')] k)"
    by blast
  from st(3) have "map_of stored ''x'' = Some (PInt 1)" by simp
  with st have 2: "\<exists>stored. atomic ab_db_x (find_node (PStr ''A'')) ?h' = (Inr (PDict stored), ab_db_x, ?h') \<and>
      map_of stored ''id'' = Some (PStr ''A'') \<and> map_of stored ''x'' = Some (PInt 1)"
    by blast
  from th absent have 3: "\<exists>db1 h1 db2 h2 db3 h3 d2 d3.
      atomic empty_db (upsert_node (PStr ''A'') 0) scenario_heap = (Inr (), db1, h1) \<and>
      atomic db1 (upsert_node (PStr ''A'') 1) h1 = (Inr (), db2, h2) \<and>
      atomic db2 (find_node (PStr ''A'')) h2 = (Inr (PDict d2), db2, h2) \<and>
      map_of d2 = map_of [(''id'', PStr ''A''), (''a'', PInt 1), (''b'', PInt 2)] \<and>
      atomic db2 (upsert_node (PStr ''A'') 2) h2 = (Inr (), db3, h3) \<and>
      atomic db3 (find_node (PStr ''A'')) h3 = (Inr (PDict d3), db3, h3) \<and>
      map_of d3 = map_of [(''id'', PStr ''A''), (''a'', PInt 3), (''b'', PInt 2)]"
    by blast
  from 1 run 2 3 show ?thesis by blast
qed

text \<open>
  The key \<open>"id"\<close> of \<open>data\<close> does not overwrite the old one: upserting \<open>{"id": "Z"}\<close> under
  the identifier \<open>A\<close> leaves the record of \<open>A\<close> with \<open>"id": "A"\<close>.
\<close>

theorem upsert_node_id_not_overwritten:
  "atomic ab_db (upsert_node (PStr ''A'') 0) [[(''id'', PStr ''Z'')]] =
     (Inr (), ab_db, [[(''id'', PStr ''Z'')], [(''id'', PStr ''A'')]]) \<and>
   fst (atomic ab_db (find_node (PStr ''A'')) [[(''id'', PStr ''Z'')], [(''id'', PStr ''A'')]]) =
     Inr (PDict [(''id'', PStr ''A'')])"
  by (simp add: atomic_eq upsert_node_def upsert_node'_def find_node_def select_node_sql_def
      ab_db_def sql_eq_def alloc_def dict_merge_def set_id'_def json_dumps_def update_node_sql_def)

subsection \<open>In-place injection of the identifier\<close>

lemma add_embedding'_heap:
  "add_embedding' get_embedding ident data c h = (r, c', h') \<Longrightarrow> h' = vss_set_id' ident data h"
  by (auto simp: add_embedding'_def Let_def split: sum.splits)

text \<open>
  Claim C10, as the code has it. With an identifier that is not \<open>None\<close>, \<open>add_node\<close> and
  \<open>add_node_embedding\<close> write the identifier under \<open>"id"\<close> into the caller's dictionary
  itself and change no other object, whether they return or raise; so does \<open>upsert_node\<close>
  when no record is stored under the identifier. When a record is stored, \<open>upsert_node\<close>
  injects the identifier into the merged dictionary, a new object, and the caller's
  \<open>data\<close> is as it was.
\<close>

theorem identifier_written_into_data:
  assumes ref: "data < length h" and nn: "identifier \<noteq> PNone"
  shows "snd (snd (atomic db (add_node data identifier) h)) =
           h[data := dict_set ''id'' identifier (h ! data)] \<and>
         (sql_bind identifier = Inr p \<and> select_node_sql p db = [] \<longrightarrow>
            snd (snd (atomic db (upsert_node identifier data) h)) =
              h[data := dict_set ''id'' identifier (h ! data)]) \<and>
         (sql_bind identifier = Inr p \<and> select_node_sql p db_with = Json (PDict old) # others \<and>
          old \<noteq> [] \<longrightarrow>
            snd (snd (atomic db_with (upsert_node identifier data) h)) ! data = h ! data) \<and>
         snd (snd (add_node_embedding get_embedding vdb identifier data h)) =
           h[data := dict_set ''id'' identifier (h ! data)] \<and>
         map_of (h[data := dict_set ''id'' identifier (h ! data)] ! data) ''id'' = Some identifier"
proof (intro conjI impI)
  obtain r c' h' where run: "insert_node' identifier data db h = (r, c', h')"
    by (cases "insert_node' identifier data db h") auto
  from insert_node'_heap[OF run] nn have h': "h' = h[data := dict_set ''id'' identifier (h ! data)]"
    by (simp add: set_id'_def)
  from run h' show add: "snd (snd (atomic db (add_node data identifier) h)) =
           h[data := dict_set ''id'' identifier (h ! data)]"
    by (cases r) (simp_all add: atomic_eq add_node_def)
  {
    assume a: "sql_bind identifier = Inr p \<and> select_node_sql p db = []"
    then have "atomic db (upsert_node identifier data) h = atomic db (add_node data identifier) h"
      by (simp add: atomic_eq upsert_node_def add_node_def upsert_absent)
    with add show "snd (snd (atomic db (upsert_node identifier data) h)) =
              h[data := dict_set ''id'' identifier (h ! data)]"
      by simp
  }
  {
    assume a: "sql_bind identifier = Inr p \<and> select_node_sql p db_with = Json (PDict old) # others \<and>
          old \<noteq> []"
    then have bind: "sql_bind identifier = Inr p"
      and found: "select_node_sql p db_with = Json (PDict old) # others" and ne: "old \<noteq> []"
      by simp_all
    have "snd (snd (atomic db_with (upsert_node identifier data) h)) =
        h @ [dict_set ''id'' identifier (dict_merge old (h ! data))]"
      by (simp add: atomic_eq upsert_node_def upsert_existing[OF bind nn found ne])
    then show "snd (snd (atomic db_with (upsert_node identifier data) h)) ! data = h ! data"
      using ref by (simp add: nth_append)
  }
  obtain r2 c2 h2 where run2:
    "add_embedding' get_embedding identifier data (connect vdb) h = (r2, c2, h2)"
    by (cases "add_embedding' get_embedding identifier data (connect vdb) h") auto
  from add_embedding'_heap[OF run2] nn have h2: "h2 = h[data := dict_set ''id'' identifier (h ! data)]"
    by (simp add: vss_set_id'_def)
  from run2 h2 show "snd (snd (add_node_embedding get_embedding vdb identifier data h)) =
           h[data := dict_set ''id'' identifier (h ! data)]"
    by (cases r2) (simp_all add: add_node_embedding_def db_atomic_def)
  show "map_of (h[data := dict_set ''id'' identifier (h ! data)] ! data) ''id'' = Some identifier"
    using ref by (simp add: map_of_dict_set)
qed

theorem identifier_written_into_data_witness:
  "snd (snd (atomic ab_db (add_node 0 (PStr ''C'')) [[(''x'', PInt 1)]])) =
     [[(''x'', PInt 1), (''id'', PStr ''C'')]] \<and>
   snd (snd (atomic ab_db (upsert_node (PStr ''C'') 0) [[(''x'', PInt 1)]])) =
     [[(''x'', PInt 1), (''id'', PStr ''C'')]] \<and>
   snd (snd (atomic ab_db (upsert_node (PStr ''A'') 0) [[(''x'', PInt 1)]])) ! 0 = [(''x'', PInt 1)] \<and>
   snd (snd (add_node_embedding example_embedding example_vss (PStr ''C'') 0 [[(''x'', PInt 1)]])) =
     [[(''x'', PInt 1), (''id'', PStr ''C'')]]"
proof -
  let ?h = "[[(''x'', PInt 1)]]"
  have ref: "0 < length ?h" by simp
  have nnC: "PStr ''C'' \<noteq> PNone" and nnA: "PStr ''A'' \<noteq> PNone" by simp_all
  have absent: "sql_bind (PStr ''C'') = Inr (CText ''C'') \<and> select_node_sql (CText ''C'') ab_db = []"
    by (simp add: select_node_sql_def ab_db_def sql_eq_def)
  have found: "sql_bind (PStr ''A'') = Inr (CText ''A'') \<and>
      select_node_sql (CText ''A'') ab_db = Json (PDict [(''id'', PStr ''A'')]) # [] \<and>
      [(''id'', PStr ''A'')] \<noteq> []"
    by (simp add: select_node_sql_def ab_db_def sql_eq_def)
  have upd: "?h[0 := dict_set ''id'' (PStr ''C'') (?h ! 0)] = [[(''x'', PInt 1), (''id'', PStr ''C'')]]"
    by simp
  note thC = identifier_written_into_data[OF ref nnC, where db = ab_db and p = "CText ''C''"
      and get_embedding = example_embedding and vdb = example_vss, unfolded upd]
  note thA = identifier_written_into_data[OF ref nnA, where db_with = ab_db and p = "CText ''A''"
      and old = "[(''id'', PStr ''A'')]" and others = "[]"]
  from thC have 1: "snd (snd (atomic ab_db (add_node 0 (PStr ''C'')) ?h)) =
     [[(''x'', PInt 1), (''id'', PStr ''C'')]]" by blast
  from thC absent have 2: "snd (snd (atomic ab_db (upsert_node (PStr ''C'') 0) ?h)) =
     [[(''x'', PInt 1), (''id'', PStr ''C'')]]" by blast
  from thA found have 3: "snd (snd (atomic ab_db (upsert_node (PStr ''A'') 0) ?h)) ! 0 = ?h ! 0"
    by blast
  from thC have 4: "snd (snd (add_node_embedding example_embedding example_vss (PStr ''C'') 0 ?h)) =
     [[(''x'', PInt 1), (''id'', PStr ''C'')]]" by blast
  from 1 2 3 4 show ?thesis by simp
qed

text \<open>
  After \<open>upsert_node("A", data)\<close> on a store that has the node \<open>A\<close>, \<open>data\<close> has no key
  \<open>"id"\<close>.
\<close>

theorem upsert_node_existing_leaves_data:
  "map_of (snd (snd (atomic ab_db (upsert_node (PStr ''A'') 0) [[(''x'', PInt 1)]])) ! 0) ''id'' = None"
  by (simp add: atomic_eq upsert_node_def upsert_node'_def find_node_def select_node_sql_def
      ab_db_def sql_eq_def alloc_def dict_merge_def set_id'_def json_dumps_def update_node_sql_def)

subsection \<open>The stored id mirrors the identifier\<close>

lemma select_null: "select_node_sql CNull db = []"
  by (simp add: select_node_sql_def sql_eq_def)

lemma select_nonempty_key:
  "select_node_sql p db \<noteq> [] \<Longrightarrow> p \<noteq> CNull \<and> p \<in> fst ` set (nodes db)"
  by (auto simp: select_node_sql_def sql_eq_def filter_empty_conv)

lemma insert_node_sql_keeps:
  assumes ins: "insert_node_sql body c = Inr c'" and ne: "select_node_sql p c \<noteq> []"
  shows "select_node_sql p c' = select_node_sql p c"
proof -
  from ins have k: "json_id body \<notin> fst ` set (nodes c)"
    and c': "nodes c' = nodes c @ [(json_id body, body)]"
    by (auto simp: insert_node_sql_def split: if_splits)
  from select_nonempty_key[OF ne] k have "json_id body \<noteq> p" by auto
  then show ?thesis by (simp add: select_node_sql_def c' sql_eq_def)
qed

lemma select_update_other:
  "q \<noteq> p \<Longrightarrow> select_node_sql q (update_node_sql body p db) = select_node_sql q db"
proof -
  assume qp: "q \<noteq> p"
  have "map snd (filter (\<lambda>row. sql_eq (fst row) q)
          (map (\<lambda>row. if sql_eq (fst row) p then (fst row, body) else row) rows)) =
        map snd (filter (\<lambda>row. sql_eq (fst row) q) rows)" for rows :: "(cell \<times> json) list"
    using qp by (induction rows) (auto simp: sql_eq_def)
  then show ?thesis by (simp add: select_node_sql_def update_node_sql_def)
qed

lemma bind_eq_same:
  "sql_bind i = Inr p \<Longrightarrow> sql_bind k = Inr p \<Longrightarrow> p \<noteq> CNull \<Longrightarrow> i = k"
  by (cases i; cases k) auto

lemma stored_with_id_insert_sql:
  "stored_with_id c k \<Longrightarrow> insert_node_sql body c = Inr c' \<Longrightarrow> stored_with_id c' k"
  by (auto simp: stored_with_id_def insert_node_sql_keeps split: sum.splits)

lemma stored_with_id_update:
  assumes st: "stored_with_id c k" and bind: "sql_bind i = Inr p" and nn: "i \<noteq> PNone"
  shows "stored_with_id (update_node_sql (Json (PDict (dict_set ''id'' i d))) p c) k"
proof -
  from st obtain pk where pk: "sql_bind k = Inr pk" and ne: "select_node_sql pk c \<noteq> []"
    and all: "\<forall>body \<in> set (select_node_sql pk c).
             case json_loads body of PDict d \<Rightarrow> map_of d ''id'' = Some k | other \<Rightarrow> False"
    by (auto simp: stored_with_id_def split: sum.splits)
  show ?thesis
  proof (cases "pk = p")
    case True
    from select_nonempty_key[OF ne] have "pk \<noteq> CNull" by simp
    with bind pk True have "i = k" by (auto intro: bind_eq_same)
    with pk True ne show ?thesis
      by (simp add: stored_with_id_def select_update map_of_dict_set)
  next
    case False
    with pk ne all show ?thesis
      by (simp add: stored_with_id_def select_update_other)
  qed
qed

lemma insert_node'_stores:
  assumes ident: "is_identifier i" and ref: "r < length h"
    and run: "insert_node' i r c h = (Inr u, c', h')"
  shows "stored_with_id c' i"
proof -
  let ?stored = "dict_set ''id'' i (h ! r)"
  from ident have nn: "i \<noteq> PNone" by (auto simp: is_identifier_def)
  have cell: "(set_id' i r h) ! r = ?stored" using ref nn by (simp add: set_id'_def)
  from run have ins: "insert_node_sql (Json (PDict ?stored)) c = Inr c'"
    by (auto simp: insert_node'_def Let_def cell json_dumps_def split: sum.splits if_splits)
  have sel: "select_node_sql (json_id (Json (PDict ?stored))) c' = [Json (PDict ?stored)]"
    by (rule insert_node_sql_select[OF ins])
  have bind: "sql_bind i = Inr (json_id (Json (PDict ?stored)))"
    by (rule json_id_set[OF ident])
  show ?thesis by (simp add: stored_with_id_def bind sel map_of_dict_set)
qed

lemma insert_node'_keeps:
  "stored_with_id c k \<Longrightarrow> insert_node' i r c h = (Inr u, c', h') \<Longrightarrow> stored_with_id c' k"
  by (auto simp: insert_node'_def Let_def split: sum.splits dest: stored_with_id_insert_sql)

lemma upsert_node'_cases:
  assumes run: "upsert_node' i r c h = (Inr u, c', h')"
  shows "insert_node' i r c h = (Inr u, c', h') \<or>
         (\<exists>p d. sql_bind i = Inr p \<and> i \<noteq> PNone \<and> select_node_sql p c \<noteq> [] \<and>
            c' = update_node_sql (Json (PDict (dict_set ''id'' i d))) p c)"
proof (cases "sql_bind i")
  case (Inl e)
  with run show ?thesis by (simp add: upsert_node'_def find_node_def)
next
  case (Inr p)
  show ?thesis
  proof (cases "select_node_sql p c")
    case Nil
    with run Inr show ?thesis by (simp add: upsert_node'_def find_node_def)
  next
    case (Cons body others)
    show ?thesis
    proof (cases "py_truthy (json_loads body)")
      case False
      with run Inr Cons show ?thesis by (simp add: upsert_node'_def find_node_def)
    next
      case True
      from Cons select_nonempty_key[of p c] have pn: "p \<noteq> CNull" by simp
      with Inr have nn: "i \<noteq> PNone" by auto
      show ?thesis
      proof (cases "json_loads body")
        case (PDict current)
        with run Inr Cons True nn
        have "c' = update_node_sql (Json (PDict (dict_set ''id'' i (dict_merge current (h ! r))))) p c"
          by (auto simp: upsert_node'_def find_node_def alloc_def set_id'_def json_dumps_def Let_def
              split: if_splits simp del: json_ok.simps)
        with Inr nn Cons show ?thesis by auto
      qed (use run Inr Cons True in \<open>simp_all add: upsert_node'_def find_node_def\<close>)
    qed
  qed
qed

lemma upsert_node'_stores:
  assumes ident: "is_identifier i" and ref: "r < length h"
    and run: "upsert_node' i r c h = (Inr u, c', h')"
  shows "stored_with_id c' i"
proof -
  from upsert_node'_cases[OF run] show ?thesis
  proof
    assume "insert_node' i r c h = (Inr u, c', h')"
    then show ?thesis by (rule insert_node'_stores[OF ident ref])
  next
    assume "\<exists>p d. sql_bind i = Inr p \<and> i \<noteq> PNone \<and> select_node_sql p c \<noteq> [] \<and>
            c' = update_node_sql (Json (PDict (dict_set ''id'' i d))) p c"
    then obtain p d where p: "sql_bind i = Inr p" and ne: "select_node_sql p c \<noteq> []"
      and c': "c' = update_node_sql (Json (PDict (dict_set ''id'' i d))) p c" by blast
    show ?thesis
      using ne by (simp add: stored_with_id_def p c' select_update map_of_dict_set)
  qed
qed

lemma upsert_node'_keeps:
  assumes st: "stored_with_id c k" and run: "upsert_node' i r c h = (Inr u, c', h')"
  shows "stored_with_id c' k"
proof -
  from upsert_node'_cases[OF run] show ?thesis
  proof
    assume "insert_node' i r c h = (Inr u, c', h')"
    with st show ?thesis by (rule insert_node'_keeps)
  next
    assume "\<exists>p d. sql_bind i = Inr p \<and> i \<noteq> PNone \<and> select_node_sql p c \<noteq> [] \<and>
            c' = update_node_sql (Json (PDict (dict_set ''id'' i d))) p c"
    then obtain p d where p: "sql_bind i = Inr p" and nn: "i \<noteq> PNone"
      and c': "c' = update_node_sql (Json (PDict (dict_set ''id'' i d))) p c" by blast
    from stored_with_id_update[OF st p nn] c' show ?thesis by simp
  qed
qed


lemma set_id'_length: "length (set_id' i r h) = length h"
  by (simp add: set_id'_def)

lemma upsert_node'_length:
  "upsert_node' i r c h = (res, c', h') \<Longrightarrow> length h \<le> length h'"
  by (auto simp: upsert_node'_def find_node_def insert_node'_def alloc_def Let_def set_id'_length
      split: sum.splits list.splits if_splits pyval.splits)

lemma upsert_loop_keeps:
  "stored_with_id c k \<Longrightarrow> upsert_loop zs c h = (Inr u, c', h') \<Longrightarrow> stored_with_id c' k"
proof (induction zs arbitrary: c h)
  case Nil
  then show ?case by simp
next
  case (Cons z zs)
  from Cons.prems(2) obtain u1 c1 h1 where
    step: "upsert_node' (fst z) (snd z) c h = (Inr u1, c1, h1)" and
    rest: "upsert_loop zs c1 h1 = (Inr u, c', h')"
    by (auto split: prod.splits sum.splits)
  from upsert_node'_keeps[OF Cons.prems(1) step] have "stored_with_id c1 k" .
  from Cons.IH[OF this rest] show ?case .
qed

lemma upsert_loop_stores:
  assumes refs: "\<forall>node \<in> set zs. snd node < length h"
    and run: "upsert_loop zs c h = (Inr u, c', h')"
  shows "\<forall>node \<in> set zs. is_identifier (fst node) \<longrightarrow> stored_with_id c' (fst node)"
  using assms
proof (induction zs arbitrary: c h)
  case Nil
  then show ?case by simp
next
  case (Cons z zs)
  from Cons.prems(2) obtain u1 c1 h1 where
    step: "upsert_node' (fst z) (snd z) c h = (Inr u1, c1, h1)" and
    rest: "upsert_loop zs c1 h1 = (Inr u, c', h')"
    by (auto split: prod.splits sum.splits)
  from upsert_node'_length[OF step] Cons.prems(1)
  have refs1: "\<forall>node \<in> set zs. snd node < length h1" by auto
  have tail: "\<forall>node \<in> set zs. is_identifier (fst node) \<longrightarrow> stored_with_id c' (fst node)"
    by (rule Cons.IH[OF refs1 rest])
  have head: "is_identifier (fst z) \<longrightarrow> stored_with_id c' (fst z)"
  proof
    assume ident: "is_identifier (fst z)"
    from Cons.prems(1) have "snd z < length h" by simp
    from upsert_node'_stores[OF ident this step] have "stored_with_id c1 (fst z)" .
    from upsert_loop_keeps[OF this rest] show "stored_with_id c' (fst z)" .
  qed
  from head tail show ?case by simp
qed

lemma dump_nodes_bodies:
  assumes refs: "\<forall>node \<in> set zs. snd node < length h"
    and run: "dump_nodes zs h = (Inr bodies, h')"
  shows "\<forall>node \<in> set zs. is_identifier (fst node) \<longrightarrow>
           (\<exists>d. Json (PDict d) \<in> set bodies \<and> map_of d ''id'' = Some (fst node))"
  using assms
proof (induction zs arbitrary: h bodies)
  case Nil
  then show ?case by simp
next
  case (Cons z zs)
  let ?h1 = "set_id' (fst z) (snd z) h"
  from Cons.prems(2) obtain body rest where
    body: "json_dumps (PDict (?h1 ! snd z)) = Inr body" and
    tail: "dump_nodes zs ?h1 = (Inr rest, h')" and
    bodies: "bodies = body # rest"
    by (auto simp: Let_def split: sum.splits prod.splits)
  from Cons.prems(1) have refs1: "\<forall>node \<in> set zs. snd node < length ?h1"
    by (simp add: set_id'_length)
  from Cons.IH[OF refs1 tail]
  have ih: "\<forall>node \<in> set zs. is_identifier (fst node) \<longrightarrow>
           (\<exists>d. Json (PDict d) \<in> set rest \<and> map_of d ''id'' = Some (fst node))" .
  have head: "is_identifier (fst z) \<longrightarrow>
           (\<exists>d. Json (PDict d) \<in> set bodies \<and> map_of d ''id'' = Some (fst z))"
  proof
    assume ident: "is_identifier (fst z)"
    then have nn: "fst z \<noteq> PNone" by (auto simp: is_identifier_def)
    from Cons.prems(1) have "snd z < length h" by simp
    with nn have "?h1 ! snd z = dict_set ''id'' (fst z) (h ! snd z)"
      by (simp add: set_id'_def)
    with body have "body = Json (PDict (dict_set ''id'' (fst z) (h ! snd z)))"
      by (simp add: json_dumps_def split: if_splits)
    then show "\<exists>d. Json (PDict d) \<in> set bodies \<and> map_of d ''id'' = Some (fst z)"
      by (auto simp: bodies map_of_dict_set)
  qed
  from head ih show ?case by (auto simp: bodies)
qed

lemma executemany_insert_keeps:
  "select_node_sql p c \<noteq> [] \<Longrightarrow> executemany_insert bodies c = (Inr u, c') \<Longrightarrow>
   select_node_sql p c' = select_node_sql p c"
proof (induction bodies arbitrary: c)
  case Nil
  then show ?case by simp
next
  case (Cons body bodies)
  from Cons.prems(2) obtain c1 where ins: "insert_node_sql body c = Inr c1"
    and rest: "executemany_insert bodies c1 = (Inr u, c')"
    by (auto split: sum.splits)
  from insert_node_sql_keeps[OF ins Cons.prems(1)]
  have keep: "select_node_sql p c1 = select_node_sql p c" .
  with Cons.prems(1) have "select_node_sql p c1 \<noteq> []" by simp
  from Cons.IH[OF this rest] keep show ?case by simp
qed

lemma executemany_insert_stores:
  "executemany_insert bodies c = (Inr u, c') \<Longrightarrow>
   \<forall>body \<in> set bodies. select_node_sql (json_id body) c' = [body]"
proof (induction bodies arbitrary: c)
  case Nil
  then show ?case by simp
next
  case (Cons body bodies)
  from Cons.prems obtain c1 where ins: "insert_node_sql body c = Inr c1"
    and rest: "executemany_insert bodies c1 = (Inr u, c')"
    by (auto split: sum.splits)
  have sel: "select_node_sql (json_id body) c1 = [body]"
    by (rule insert_node_sql_select[OF ins])
  then have "select_node_sql (json_id body) c1 \<noteq> []" by simp
  from executemany_insert_keeps[OF this rest] sel
  have "select_node_sql (json_id body) c' = [body]" by simp
  with Cons.IH[OF rest] show ?case by simp
qed

lemma json_id_of_identifier:
  "is_identifier i \<Longrightarrow> map_of d ''id'' = Some i \<Longrightarrow> sql_bind i = Inr (json_id (Json (PDict d)))"
  by (cases i) (auto simp: is_identifier_def json_id_def)

lemma add_nodes_stores:
  assumes refs: "\<forall>node \<in> set zs. snd node < length h"
    and dump: "dump_nodes zs h = (Inr bodies, h')"
    and ins: "executemany_insert bodies c = (Inr u, c')"
  shows "\<forall>node \<in> set zs. is_identifier (fst node) \<longrightarrow> stored_with_id c' (fst node)"
proof (intro ballI impI)
  fix node assume node: "node \<in> set zs" and ident: "is_identifier (fst node)"
  from dump_nodes_bodies[OF refs dump] node ident obtain d where
    d: "Json (PDict d) \<in> set bodies" "map_of d ''id'' = Some (fst node)" by blast
  from executemany_insert_stores[OF ins] d(1)
  have sel: "select_node_sql (json_id (Json (PDict d))) c' = [Json (PDict d)]" by blast
  from json_id_of_identifier[OF ident d(2)] sel d(2)
  show "stored_with_id c' (fst node)"
    by (simp add: stored_with_id_def)
qed

lemma stored_with_id_find:
  assumes "stored_with_id db identifier"
  shows "\<exists>d. atomic db (find_node identifier) h = (Inr (PDict d), db, h) \<and>
             map_of d ''id'' = Some identifier"
proof -
  from assms obtain p where p: "sql_bind identifier = Inr p" and ne: "select_node_sql p db \<noteq> []"
    and all: "\<forall>body \<in> set (select_node_sql p db).
             case json_loads body of PDict d \<Rightarrow> map_of d ''id'' = Some identifier | other \<Rightarrow> False"
    by (auto simp: stored_with_id_def split: sum.splits)
  from ne obtain body others where sel: "select_node_sql p db = body # others"
    by (cases "select_node_sql p db") auto
  with all obtain d where "json_loads body = PDict d" "map_of d ''id'' = Some identifier"
    by (cases "json_loads body") auto
  then show ?thesis by (simp add: atomic_eq find_node_def p sel)
qed

lemma add_node_None_stores:
  assumes run: "insert_node' PNone r c h = (Inr u, c', h')"
  shows "\<exists>i. map_of (h ! r) ''id'' = Some i \<and> is_identifier i \<and> stored_with_id c' i"
proof -
  from run have ins: "insert_node_sql (Json (PDict (h ! r))) c = Inr c'"
    by (auto simp: insert_node'_def Let_def set_id'_def json_dumps_def split: sum.splits if_splits)
  then have "json_id (Json (PDict (h ! r))) \<noteq> CNull"
    by (auto simp: insert_node_sql_def split: if_splits)
  then obtain i where i: "map_of (h ! r) ''id'' = Some i" "is_identifier i"
    by (auto simp: json_id_def is_identifier_def split: option.splits pyval.splits)
  from insert_node_sql_select[OF ins] json_id_of_identifier[OF i(2,1)] i(1)
  have "stored_with_id c' i" by (simp add: stored_with_id_def)
  with i show ?thesis by blast
qed


text \<open>
  Claim C7. After \<open>add_node\<close> or \<open>upsert_node\<close> has persisted a node under a
  caller-assigned identifier, and after \<open>add_nodes\<close> or \<open>upsert_nodes\<close> has persisted a
  batch, for every identifier of the batch, the node is stored with that identifier: the
  lookup by the identifier finds a record, every record it finds holds the identifier under
  \<open>"id"\<close>, and \<open>find_node\<close> returns attributes with that \<open>"id"\<close>. Without a caller-assigned
  identifier \<open>add_node\<close> persists a node only when its attributes hold an identifier under
  \<open>"id"\<close>, and the node is stored with it. In a store where the \<open>"id"\<close> of every body
  mirrors the \<open>id\<close> of its row, the empty store for one, this is again so after each of the four
  operations, whatever the identifiers (given or \<open>None\<close>) and the dictionaries are.
\<close>

theorem stored_id_mirrors_identifier:
  assumes ref: "data < length h" and refs: "\<forall>r \<in> set nodes_list. r < length h"
  shows "(is_identifier identifier \<and> atomic db (add_node data identifier) h = (Inr u_add, db_add, h_add) \<longrightarrow>
            stored_with_id db_add identifier) \<and>
         (is_identifier identifier \<and> atomic db (upsert_node identifier data) h = (Inr u_ups, db_ups, h_ups) \<longrightarrow>
            stored_with_id db_ups identifier) \<and>
         (atomic db (add_nodes nodes_list ids) h = (Inr u_adds, db_adds, h_adds) \<longrightarrow>
            (\<forall>node \<in> set (zip ids nodes_list). is_identifier (fst node) \<longrightarrow>
               stored_with_id db_adds (fst node))) \<and>
         (atomic db (upsert_nodes nodes_list ids) h = (Inr u_upss, db_upss, h_upss) \<longrightarrow>
            (\<forall>node \<in> set (zip ids nodes_list). is_identifier (fst node) \<longrightarrow>
               stored_with_id db_upss (fst node))) \<and>
         (atomic db (add_node data_none PNone) h = (Inr u_none, db_none, h_none) \<longrightarrow>
            (\<exists>i. map_of (h ! data_none) ''id'' = Some i \<and> is_identifier i \<and> stored_with_id db_none i)) \<and>
         (stored_with_id db_add identifier \<longrightarrow>
            (\<exists>d. atomic db_add (find_node identifier) h_add = (Inr (PDict d), db_add, h_add) \<and>
                 map_of d ''id'' = Some identifier)) \<and>
         id_mirrored empty_db \<and>
         (id_mirrored db \<longrightarrow>
            id_mirrored (fst (snd (atomic db (add_node data identifier) h))) \<and>
            id_mirrored (fst (snd (atomic db (add_nodes nodes_list ids) h))) \<and>
            id_mirrored (fst (snd (atomic db (upsert_node identifier data) h))) \<and>
            id_mirrored (fst (snd (atomic db (upsert_nodes nodes_list ids) h))))"
proof (intro conjI impI)
  have zrefs: "\<forall>node \<in> set (zip ids nodes_list). snd node < length h"
    using refs by (auto dest: set_zip_rightD)
  {
    assume a: "is_identifier identifier \<and> atomic db (add_node data identifier) h = (Inr u_add, db_add, h_add)"
    then have "insert_node' identifier data db h = (Inr u_add, db_add, h_add)"
      by (auto simp: atomic_eq add_node_def split: prod.splits sum.splits)
    with a show "stored_with_id db_add identifier"
      by (auto intro: insert_node'_stores[OF _ ref])
  }
  {
    assume a: "is_identifier identifier \<and> atomic db (upsert_node identifier data) h = (Inr u_ups, db_ups, h_ups)"
    then have "upsert_node' identifier data db h = (Inr u_ups, db_ups, h_ups)"
      by (auto simp: atomic_eq upsert_node_def split: prod.splits sum.splits)
    with a show "stored_with_id db_ups identifier"
      by (auto intro: upsert_node'_stores[OF _ ref])
  }
  {
    assume "atomic db (add_nodes nodes_list ids) h = (Inr u_adds, db_adds, h_adds)"
    then obtain bodies u where "dump_nodes (zip ids nodes_list) h = (Inr bodies, h_adds)"
      "executemany_insert bodies db = (Inr u, db_adds)"
      by (auto simp: atomic_eq add_nodes_def split: prod.splits sum.splits)
    from add_nodes_stores[OF zrefs this]
    show "\<forall>node \<in> set (zip ids nodes_list). is_identifier (fst node) \<longrightarrow>
               stored_with_id db_adds (fst node)" .
  }
  {
    assume "atomic db (upsert_nodes nodes_list ids) h = (Inr u_upss, db_upss, h_upss)"
    then have "upsert_loop (zip ids nodes_list) db h = (Inr u_upss, db_upss, h_upss)"
      by (auto simp: atomic_eq upsert_nodes_def split: prod.splits sum.splits)
    from upsert_loop_stores[OF zrefs this]
    show "\<forall>node \<in> set (zip ids nodes_list). is_identifier (fst node) \<longrightarrow>
               stored_with_id db_upss (fst node)" .
  }
  {
    assume "atomic db (add_node data_none PNone) h = (Inr u_none, db_none, h_none)"
    then have "insert_node' PNone data_none db h = (Inr u_none, db_none, h_none)"
      by (auto simp: atomic_eq add_node_def split: prod.splits sum.splits)
    from add_node_None_stores[OF this]
    show "\<exists>i. map_of (h ! data_none) ''id'' = Some i \<and> is_identifier i \<and> stored_with_id db_none i" .
  }
  {
    assume "stored_with_id db_add identifier"
    from stored_with_id_find[OF this]
    show "\<exists>d. atomic db_add (find_node identifier) h_add = (Inr (PDict d), db_add, h_add) \<and>
                 map_of d ''id'' = Some identifier" .
  }
  show "id_mirrored empty_db"
    by (simp add: id_mirrored_def empty_db_def)
  {
    assume inv: "id_mirrored db"
    show "id_mirrored (fst (snd (atomic db (add_node data identifier) h)))"
      by (rule atomic_mirrored[OF inv]) (auto simp: add_node_def dest: insert_node'_mirrored[OF inv])
    show "id_mirrored (fst (snd (atomic db (add_nodes nodes_list ids) h)))"
      by (rule atomic_mirrored[OF inv])
         (auto simp: add_nodes_def inv split: prod.splits sum.splits
               dest: executemany_insert_mirrored[OF inv])
    show "id_mirrored (fst (snd (atomic db (upsert_node identifier data) h)))"
      by (rule atomic_mirrored[OF inv]) (auto simp: upsert_node_def dest: upsert_node'_mirrored[OF inv])
    show "id_mirrored (fst (snd (atomic db (upsert_nodes nodes_list ids) h)))"
      by (rule atomic_mirrored[OF inv]) (auto simp: upsert_nodes_def dest: upsert_loop_mirrored[OF inv])
  }
qed


theorem stored_id_mirrors_identifier_witness:
  "stored_with_id (fst (snd (atomic ab_db (add_node 0 (PStr ''C'')) three_dicts))) (PStr ''C'') \<and>
   stored_with_id (fst (snd (atomic ab_db (upsert_node (PStr ''C'') 0) three_dicts))) (PStr ''C'') \<and>
   stored_with_id (fst (snd (atomic ab_db (add_nodes [0, 2] [PStr ''C'', PStr ''D'']) three_dicts)))
     (PStr ''D'') \<and>
   stored_with_id (fst (snd (atomic ab_db (upsert_nodes [0, 2] [PStr ''C'', PStr ''D'']) three_dicts)))
     (PStr ''D'') \<and>
   stored_with_id (fst (snd (atomic ab_db (add_node 1 PNone) three_dicts))) (PInt 5) \<and>
   (\<exists>d. atomic (fst (snd (atomic ab_db (add_node 0 (PStr ''C'')) three_dicts))) (find_node (PStr ''C''))
           (snd (snd (atomic ab_db (add_node 0 (PStr ''C'')) three_dicts))) =
         (Inr (PDict d), fst (snd (atomic ab_db (add_node 0 (PStr ''C'')) three_dicts)),
          snd (snd (atomic ab_db (add_node 0 (PStr ''C'')) three_dicts))) \<and>
        map_of d ''id'' = Some (PStr ''C'')) \<and>
   id_mirrored ab_db \<and>
   id_mirrored (fst (snd (atomic ab_db (upsert_node (PStr ''C'') 0) three_dicts)))"
proof -
  let ?h = "three_dicts"
  let ?r1 = "atomic ab_db (add_node 0 (PStr ''C'')) ?h"
  let ?r2 = "atomic ab_db (upsert_node (PStr ''C'') 0) ?h"
  let ?r3 = "atomic ab_db (add_nodes [0, 2] [PStr ''C'', PStr ''D'']) ?h"
  let ?r4 = "atomic ab_db (upsert_nodes [0, 2] [PStr ''C'', PStr ''D'']) ?h"
  let ?r5 = "atomic ab_db (add_node 1 PNone) ?h"
  have ref: "(0::nat) < length ?h" and refs: "\<forall>r \<in> set [0, 2::nat]. r < length ?h"
    by (simp_all add: three_dicts_def)
  have c: "is_identifier (PStr ''C'')" and d: "is_identifier (PStr ''D'')"
    by (simp_all add: is_identifier_def)
  have inv: "id_mirrored ab_db"
    by (simp add: id_mirrored_def ab_db_def json_id_def)
  have "fst ?r1 = Inr ()"
    by (simp add: atomic_eq add_node_def insert_node'_def set_id'_def json_dumps_def
        insert_node_sql_def json_id_def ab_db_def three_dicts_def)
  then have e1: "?r1 = (Inr (), fst (snd ?r1), snd (snd ?r1))" by (metis prod.collapse)
  have "fst ?r2 = Inr ()"
    by (simp add: atomic_eq upsert_node_def upsert_node'_def find_node_def select_node_sql_def
        sql_eq_def insert_node'_def set_id'_def json_dumps_def insert_node_sql_def json_id_def
        ab_db_def three_dicts_def)
  then have e2: "?r2 = (Inr (), fst (snd ?r2), snd (snd ?r2))" by (metis prod.collapse)
  have "fst ?r3 = Inr ()"
    by (simp add: atomic_eq add_nodes_def set_id'_def json_dumps_def Let_def
        insert_node_sql_def json_id_def ab_db_def three_dicts_def)
  then have e3: "?r3 = (Inr (), fst (snd ?r3), snd (snd ?r3))" by (metis prod.collapse)
  have "fst ?r4 = Inr ()"
    by (simp add: atomic_eq upsert_nodes_def upsert_node'_def find_node_def select_node_sql_def
        sql_eq_def insert_node'_def set_id'_def json_dumps_def insert_node_sql_def json_id_def
        ab_db_def three_dicts_def)
  then have e4: "?r4 = (Inr (), fst (snd ?r4), snd (snd ?r4))" by (metis prod.collapse)
  have "fst ?r5 = Inr ()"
    by (simp add: atomic_eq add_node_def insert_node'_def set_id'_def json_dumps_def
        insert_node_sql_def json_id_def ab_db_def three_dicts_def)
  then have e5: "?r5 = (Inr (), fst (snd ?r5), snd (snd ?r5))" by (metis prod.collapse)
  have zip: "(PStr ''D'', 2) \<in> set (zip [PStr ''C'', PStr ''D''] [0, 2::nat])" by simp
  have id5: "map_of (?h ! 1) ''id'' = Some (PInt 5)" by (simp add: three_dicts_def)
  note th = stored_id_mirrors_identifier[OF ref refs, where ?identifier = "PStr ''C''" and db = ab_db
      and u_add = "()" and db_add = "fst (snd ?r1)" and h_add = "snd (snd ?r1)"
      and u_ups = "()" and db_ups = "fst (snd ?r2)" and h_ups = "snd (snd ?r2)"
      and ids = "[PStr ''C'', PStr ''D'']"
      and u_adds = "()" and db_adds = "fst (snd ?r3)" and h_adds = "snd (snd ?r3)"
      and u_upss = "()" and db_upss = "fst (snd ?r4)" and h_upss = "snd (snd ?r4)"
      and data_none = 1
      and u_none = "()" and db_none = "fst (snd ?r5)" and h_none = "snd (snd ?r5)"]
  from th c e1 have 1: "stored_with_id (fst (snd ?r1)) (PStr ''C'')" by blast
  from th c e2 have 2: "stored_with_id (fst (snd ?r2)) (PStr ''C'')" by blast
  from th e3 zip d have 3: "stored_with_id (fst (snd ?r3)) (PStr ''D'')" by fastforce
  from th e4 zip d have 4: "stored_with_id (fst (snd ?r4)) (PStr ''D'')" by fastforce
  from th e5 obtain i where "map_of (?h ! 1) ''id'' = Some i" "stored_with_id (fst (snd ?r5)) i"
    by blast
  with id5 have 5: "stored_with_id (fst (snd ?r5)) (PInt 5)" by simp
  from th 1 have 6: "\<exists>d. atomic (fst (snd ?r1)) (find_node (PStr ''C'')) (snd (snd ?r1)) =
         (Inr (PDict d), fst (snd ?r1), snd (snd ?r1)) \<and> map_of d ''id'' = Some (PStr ''C'')"
    by blast
  from th inv have 7: "id_mirrored (fst (snd ?r2))" by blast
  from 1 2 3 4 5 6 inv 7 show ?thesis by blast
qed

end
